theory Spec2Isabelle
  imports Main
begin

section \<open>Go library values used by the Redis output\<close>

text \<open>
  A Go \<^verbatim>\<open>error\<close> value carries a message. Go's \<^verbatim>\<open>int\<close> is modelled as \<^typ>\<open>int\<close>;
  \<^verbatim>\<open>time.Duration\<close> is an int64 count of nanoseconds, so the product
  \<^verbatim>\<open>time.Duration(n) * unit\<close> wraps around modulo \<open>2^64\<close>, which is written out in
  \<open>duration_mul\<close>.
\<close>

datatype error = Error string

type_synonym Duration = int

definition wrap64 :: "int \<Rightarrow> int" where
  "wrap64 x = (x + 2 ^ 63) mod 2 ^ 64 - 2 ^ 63"

definition Millisecond :: Duration where
  "Millisecond = 1000000"

definition Second :: Duration where
  "Second = 1000000000"

definition duration_mul :: "int \<Rightarrow> Duration \<Rightarrow> Duration" where
  "duration_mul n unit = wrap64 (n * unit)"

text \<open>
  \<^verbatim>\<open>int(d.Seconds())\<close>. \<^verbatim>\<open>Seconds\<close> of package \<^verbatim>\<open>time\<close> is
  \<^verbatim>\<open>sec := d / Second; nsec := d % Second; return float64(sec) + float64(nsec)/1e9\<close>
  and the conversion to \<^verbatim>\<open>int\<close> truncates towards zero. The two conversions to float64 are
  exact (both numbers are below \<open>2^53\<close>); the quotient and the sum are rounded to the
  nearest binary64 value, ties to even. A binary64 value is written here as a pair
  \<open>(m, k)\<close> standing for \<open>m / 2^k\<close>. \<open>f64_round n d\<close> is the binary64 value nearest to the
  fraction \<open>n / d\<close> for \<open>0 \<le> n\<close> and \<open>0 < d\<close> (53 significant bits; the values that occur
  are far from the limits of the exponent). Go's \<^verbatim>\<open>/\<close> and \<^verbatim>\<open>%\<close> truncate towards zero and
  rounding is symmetric, so a negative duration gives the negated result of its
  absolute value.
\<close>

fun bit_length :: "nat \<Rightarrow> nat" where
  "bit_length n = (if n = 0 then 0 else Suc (bit_length (n div 2)))"

declare bit_length.simps [simp del]

definition round_half_even :: "int \<Rightarrow> int \<Rightarrow> int" where
  "round_half_even n d =
     (let q = n div d; r = n mod d
      in if 2 * r < d then q else if d < 2 * r then q + 1 else if even q then q else q + 1)"

text \<open>The exponent \<open>e\<close> with \<open>2^e \<le> n / d < 2^(e + 1)\<close>, for \<open>0 < n\<close> and \<open>0 < d\<close>.\<close>

definition f64_exponent :: "int \<Rightarrow> int \<Rightarrow> int" where
  "f64_exponent n d =
     (if d \<le> n then int (bit_length (nat (n div d))) - 1
      else - int (bit_length (nat ((d - 1) div n))))"

definition f64_round :: "int \<Rightarrow> int \<Rightarrow> int \<times> nat" where
  "f64_round n d =
     (if n = 0 then (0, 0)
      else let e = f64_exponent n d
           in if e \<le> 52 then (round_half_even (n * 2 ^ nat (52 - e)) d, nat (52 - e))
              else (round_half_even n (d * 2 ^ nat (e - 52)) * 2 ^ nat (e - 52), 0))"

definition Seconds_int :: "Duration \<Rightarrow> int" where
  "Seconds_int d =
     (let a = \<bar>d\<bar>; sec = a div Second; nsec = a mod Second
      in case f64_round nsec 1000000000 of
           (m, k) \<Rightarrow>
             (case f64_round (sec * 2 ^ k + m) (2 ^ k) of
                (s, j) \<Rightarrow> (if d < 0 then - (s div 2 ^ j) else s div 2 ^ j)))"

text \<open>\<^verbatim>\<open>strings.Split(s, sep)\<close> and \<^verbatim>\<open>strings.Join(xs, sep)\<close> for a one-byte separator.\<close>

fun strings_Split :: "string \<Rightarrow> char \<Rightarrow> string list" where
  "strings_Split [] sep = [[]]"
| "strings_Split (c # cs) sep =
     (if c = sep then [] # strings_Split cs sep
      else (case strings_Split cs sep of
              [] \<Rightarrow> [[c]]
            | w # ws \<Rightarrow> (c # w) # ws))"

fun strings_Join :: "string list \<Rightarrow> char \<Rightarrow> string" where
  "strings_Join [] sep = []"
| "strings_Join [x] sep = x"
| "strings_Join (x # y # ys) sep = x @ sep # strings_Join (y # ys) sep"

text \<open>\<^verbatim>\<open>fmt.Sprintf("%s:%d", host, port)\<close>.\<close>

definition digit_char :: "nat \<Rightarrow> char" where
  "digit_char n = char_of (48 + n)"

function format_nat :: "nat \<Rightarrow> string" where
  "format_nat n = (if n < 10 then [digit_char n] else format_nat (n div 10) @ [digit_char (n mod 10)])"
  by pat_completeness auto
termination
  by (relation "measure id") auto

declare format_nat.simps [simp del]

definition format_int :: "int \<Rightarrow> string" where
  "format_int i = (if i < 0 then CHR ''-'' # format_nat (nat (- i)) else format_nat (nat i))"

definition Sprintf_host_port :: "string \<Rightarrow> int \<Rightarrow> string" where
  "Sprintf_host_port host port = host @ CHR '':'' # format_int port"

section \<open>The Redis connection (redigo's \<^verbatim>\<open>redis.Conn\<close>)\<close>

text \<open>
  The server is outside the program. A connection is modelled by the list of actions
  performed on it so far (\<open>hist\<close>) and by its environment \<open>env\<close>, which gives the
  outcome of the last action of a history: an error or a reply. Every behaviour of a
  (deterministic) server is some \<open>env\<close>. \<open>cid\<close> identifies the connection object.
\<close>

datatype arg = S string | I int

datatype reply = NilReply | StatusReply string | BulkReply string | MultiBulk "string list" | IntReply int

datatype action =
    ADo string "arg list"
  | ASend string "arg list"
  | AFlush
  | AReceive
  | AClose

record conn =
  cid :: nat
  env :: "action list \<Rightarrow> error + reply"
  hist :: "action list"

definition conn_Do :: "conn \<Rightarrow> string \<Rightarrow> arg list \<Rightarrow> (error + reply) \<times> conn" where
  "conn_Do c name args = (let h = hist c @ [ADo name args] in (env c h, c\<lparr>hist := h\<rparr>))"

definition conn_Send :: "conn \<Rightarrow> string \<Rightarrow> arg list \<Rightarrow> error option \<times> conn" where
  "conn_Send c name args =
     (let h = hist c @ [ASend name args]
      in ((case env c h of Inl err \<Rightarrow> Some err | Inr _ \<Rightarrow> None), c\<lparr>hist := h\<rparr>))"

definition conn_Flush :: "conn \<Rightarrow> conn" where
  "conn_Flush c = c\<lparr>hist := hist c @ [AFlush]\<rparr>"

definition conn_Receive :: "conn \<Rightarrow> (error + reply) \<times> conn" where
  "conn_Receive c = (let h = hist c @ [AReceive] in (env c h, c\<lparr>hist := h\<rparr>))"

definition conn_Close :: "conn \<Rightarrow> conn" where
  "conn_Close c = c\<lparr>hist := hist c @ [AClose]\<rparr>"

text \<open>
  redigo's reply helpers \<^verbatim>\<open>redis.String\<close> and \<^verbatim>\<open>redis.Strings\<close>: an error is passed on, a
  nil reply is \<^verbatim>\<open>ErrNil\<close>, a reply of another type is an error.
\<close>

definition ErrNil :: error where
  "ErrNil = Error ''redigo: nil returned''"

fun redis_String :: "error + reply \<Rightarrow> error + string" where
  "redis_String (Inl err) = Inl err"
| "redis_String (Inr (BulkReply s)) = Inr s"
| "redis_String (Inr (StatusReply s)) = Inr s"
| "redis_String (Inr NilReply) = Inl ErrNil"
| "redis_String (Inr _) = Inl (Error ''redigo: unexpected type for String'')"

fun redis_Strings :: "error + reply \<Rightarrow> error + string list" where
  "redis_Strings (Inl err) = Inl err"
| "redis_Strings (Inr (MultiBulk xs)) = Inr xs"
| "redis_Strings (Inr NilReply) = Inl ErrNil"
| "redis_Strings (Inr _) = Inl (Error ''redigo: unexpected type for Strings'')"

section \<open>The Redis output\<close>

datatype RedisDataType = RedisListType | RedisChannelType

text \<open>The fields of \<^verbatim>\<open>outputs.Config\<close> that the Redis output reads.\<close>

record Config =
  Host :: string
  Port :: int
  Password :: string
  Index :: string
  Db :: int
  DbTopology :: int
  Timeout :: int
  ReconnectInterval :: int
  DataType :: string
  FlushInterval :: "int option"

record RedisQueueMsg =
  index :: string
  msg :: string

text \<open>
  \<^verbatim>\<open>RedisOutput\<close>. \<open>Conn = None\<close> is the nil connection; the nil \<^verbatim>\<open>TopologyMap\<close> reads as the
  empty map. The channel \<^verbatim>\<open>sendingQueue\<close> is represented by the messages the worker
  receives from it (section on the worker).
\<close>

record RedisOutput =
  Index :: string
  Conn :: "conn option"
  TopologyExpire :: Duration
  ReconnectInterval :: Duration
  Hostname :: string
  Password :: string
  Db :: int
  DbTopology :: int
  Timeout :: Duration
  DataType :: RedisDataType
  FlushInterval :: Duration
  flush_immediatelly :: bool
  TopologyMap :: "string \<rightharpoonup> string"
  connected :: bool

subsection \<open>RedisConnect\<close>

text \<open>
  \<open>dial\<close> is the outcome of \<^verbatim>\<open>redis.DialTimeout("tcp", out.Hostname, ...)\<close>. The second
  component of the result is the history of the dialled connection when the call
  returns (empty when the dial failed); Go returns only the first component.
\<close>

definition RedisConnect :: "RedisOutput \<Rightarrow> int \<Rightarrow> error + conn \<Rightarrow> (error + conn) \<times> action list" where
  "RedisConnect out db dial =
     (case dial of
        Inl err \<Rightarrow> (Inl err, [])
      | Inr conn \<Rightarrow>
          (case (if Password out \<noteq> [] then conn_Do conn ''AUTH'' [S (Password out)]
                 else (Inr NilReply, conn)) of
             (Inl err, conn1) \<Rightarrow> (Inl err, hist conn1)
           | (Inr _, conn1) \<Rightarrow>
               (case conn_Do conn1 ''PING'' [] of
                  (Inl err, conn2) \<Rightarrow> (Inl err, hist conn2)
                | (Inr _, conn2) \<Rightarrow>
                    (case conn_Do conn2 ''SELECT'' [I db] of
                       (Inl err, conn3) \<Rightarrow> (Inl err, hist conn3)
                     | (Inr _, conn3) \<Rightarrow> (Inr conn3, hist conn3)))))"

subsection \<open>Topology: GetNameByIP, UpdateLocalTopologyMap, PublishIPs\<close>

definition GetNameByIP :: "RedisOutput \<Rightarrow> string \<Rightarrow> string" where
  "GetNameByIP out ip = (case TopologyMap out ip of None \<Rightarrow> [] | Some name \<Rightarrow> name)"

text \<open>The inner loop \<^verbatim>\<open>for _, addr := range ipaddrs\<close>.\<close>

fun range_ipaddrs :: "(string \<rightharpoonup> string) \<Rightarrow> string \<Rightarrow> string list \<Rightarrow> (string \<rightharpoonup> string)" where
  "range_ipaddrs tmp hostname [] = tmp"
| "range_ipaddrs tmp hostname (addr # rest) = range_ipaddrs (tmp(addr \<mapsto> hostname)) hostname rest"

text \<open>The outer loop \<^verbatim>\<open>for _, hostname := range hostnames\<close>.\<close>

fun range_hostnames :: "conn \<Rightarrow> (string \<rightharpoonup> string) \<Rightarrow> string list \<Rightarrow> conn \<times> (string \<rightharpoonup> string)" where
  "range_hostnames conn tmp [] = (conn, tmp)"
| "range_hostnames conn tmp (hostname # rest) =
     (case conn_Do conn ''HGET'' [S hostname, S ''ipaddrs''] of
        (r, conn') \<Rightarrow>
          (case redis_String r of
             Inl err \<Rightarrow> range_hostnames conn' tmp rest
           | Inr res \<Rightarrow>
               range_hostnames conn' (range_ipaddrs tmp hostname (strings_Split res CHR '','')) rest))"

definition UpdateLocalTopologyMap :: "RedisOutput \<Rightarrow> conn \<Rightarrow> RedisOutput \<times> conn" where
  "UpdateLocalTopologyMap out conn =
     (case conn_Do conn ''KEYS'' [S ''*''] of
        (r, conn1) \<Rightarrow>
          (case redis_Strings r of
             Inl err \<Rightarrow> (out, conn1)
           | Inr hostnames \<Rightarrow>
               (case range_hostnames conn1 Map.empty hostnames of
                  (conn2, TopologyMapTmp) \<Rightarrow> (out\<lparr>TopologyMap := TopologyMapTmp\<rparr>, conn2))))"

text \<open>
  \<open>PublishIPs\<close> returns the error (\<open>None\<close> is nil), the output and the history of the
  connection it opened; \<^verbatim>\<open>defer conn.Close()\<close> runs on every path after the connect.
\<close>

definition PublishIPs ::
  "RedisOutput \<Rightarrow> string \<Rightarrow> string list \<Rightarrow> error + conn \<Rightarrow> error option \<times> RedisOutput \<times> action list" where
  "PublishIPs out name localAddrs dial =
     (case RedisConnect out (DbTopology out) dial of
        (Inl err, tr) \<Rightarrow> (Some err, out, tr)
      | (Inr conn, tr) \<Rightarrow>
          (case conn_Do conn ''HSET'' [S name, S ''ipaddrs'', S (strings_Join localAddrs CHR '','')] of
             (Inl err, conn1) \<Rightarrow> (Some err, out, hist (conn_Close conn1))
           | (Inr _, conn1) \<Rightarrow>
               (case conn_Do conn1 ''EXPIRE'' [S name, I (Seconds_int (TopologyExpire out))] of
                  (Inl err, conn2) \<Rightarrow> (Some err, out, hist (conn_Close conn2))
                | (Inr _, conn2) \<Rightarrow>
                    (case UpdateLocalTopologyMap out conn2 of
                       (out', conn3) \<Rightarrow> (None, out', hist (conn_Close conn3))))))"

subsection \<open>Connect and Reconnect\<close>

text \<open>
  \<^verbatim>\<open>out.Conn, err = out.RedisConnect(out.Db)\<close> assigns \<^verbatim>\<open>out.Conn\<close> before the error is
  tested, so a failed attempt leaves the nil connection in \<^verbatim>\<open>out.Conn\<close>.
\<close>

definition Connect :: "RedisOutput \<Rightarrow> error + conn \<Rightarrow> error option \<times> RedisOutput" where
  "Connect out dial =
     (case fst (RedisConnect out (Db out) dial) of
        Inl err \<Rightarrow> (Some err, out\<lparr>Conn := None\<rparr>)
      | Inr conn \<Rightarrow> (None, out\<lparr>Conn := Some conn, connected := True\<rparr>))"

text \<open>
  The loop of \<^verbatim>\<open>Reconnect\<close>. \<open>dials i\<close> is the outcome of the dial of attempt \<open>i\<close>; the
  loop may run forever, which is the value \<open>None\<close>. The log records what the loop
  does between attempts: the failure it reports and the \<^verbatim>\<open>time.Sleep\<close>.
\<close>

datatype reconnect_event = ConnectFailed error | Sleep Duration

partial_function (option) Reconnect ::
  "RedisOutput \<Rightarrow> (nat \<Rightarrow> error + conn) \<Rightarrow> nat \<Rightarrow> reconnect_event list
     \<Rightarrow> (RedisOutput \<times> nat \<times> reconnect_event list) option" where
  "Reconnect out dials i log =
     (case Connect out (dials i) of
        (Some err, out') \<Rightarrow>
          Reconnect out' dials (Suc i) (log @ [ConnectFailed err, Sleep (ReconnectInterval out')])
      | (None, out') \<Rightarrow> Some (out', i, log))"

subsection \<open>Two runs of the reconnect loop on one output\<close>

text \<open>
  \<^verbatim>\<open>Connect\<close> writes the shared output twice: \<^verbatim>\<open>out.Conn\<close> when \<^verbatim>\<open>RedisConnect\<close> returns, and
  \<^verbatim>\<open>out.connected\<close> afterwards if there was no error. The code has no lock, so the
  writes of two goroutines that run \<^verbatim>\<open>Reconnect\<close> at once may interleave. A goroutine is
  about to make attempt \<open>i\<close>, or about to set \<^verbatim>\<open>connected\<close>, or has returned; \<open>thread_step\<close>
  is its next write (the third component is the value written to \<^verbatim>\<open>out.Conn\<close>, if any).
  \<^verbatim>\<open>RedisConnect\<close> reads only fields that no goroutine writes, and works on a connection
  of its own, so it is taken together with the write that follows it. A schedule names
  the goroutine that moves next; \<open>writes\<close> records the writes to \<^verbatim>\<open>out.Conn\<close> in order.
  Each write is taken as one atomic step, and the writes are seen in the order of the
  schedule.
\<close>

datatype loop_id = Loop1 | Loop2

datatype thread = Attempt nat | Mark | Returned

record sys =
  shared :: RedisOutput
  threads :: "loop_id \<Rightarrow> thread"
  writes :: "(loop_id \<times> conn option) list"

definition thread_step ::
  "RedisOutput \<Rightarrow> (nat \<Rightarrow> error + conn) \<Rightarrow> thread \<Rightarrow> RedisOutput \<times> thread \<times> conn option option" where
  "thread_step out dials t =
     (case t of
        Attempt i \<Rightarrow>
          (case fst (RedisConnect out (Db out) (dials i)) of
             Inl err \<Rightarrow> (out\<lparr>Conn := None\<rparr>, Attempt (Suc i), Some None)
           | Inr c \<Rightarrow> (out\<lparr>Conn := Some c\<rparr>, Mark, Some (Some c)))
      | Mark \<Rightarrow> (out\<lparr>connected := True\<rparr>, Returned, None)
      | Returned \<Rightarrow> (out, Returned, None))"

definition sys_step :: "(loop_id \<Rightarrow> nat \<Rightarrow> error + conn) \<Rightarrow> sys \<Rightarrow> loop_id \<Rightarrow> sys" where
  "sys_step dials s b =
     (case thread_step (shared s) (dials b) (threads s b) of
        (out', t', w) \<Rightarrow>
          s\<lparr>shared := out', threads := (threads s)(b := t'),
            writes := writes s @ (case w of None \<Rightarrow> [] | Some v \<Rightarrow> [(b, v)])\<rparr>)"

definition sys_start :: "RedisOutput \<Rightarrow> sys" where
  "sys_start out = \<lparr>shared = out, threads = (\<lambda>b. Attempt 0), writes = []\<rparr>"

definition sys_run :: "(loop_id \<Rightarrow> nat \<Rightarrow> error + conn) \<Rightarrow> RedisOutput \<Rightarrow> loop_id list \<Rightarrow> sys" where
  "sys_run dials out sch = foldl (sys_step dials) (sys_start out) sch"

subsection \<open>SendMessagesGoroutine\<close>

text \<open>
  The worker's state: the output it shares with the reconnecting goroutines, its local
  \<^verbatim>\<open>pending\<close>, the interval of its ticker (\<open>None\<close> when no ticker was created) and the
  number of \<^verbatim>\<open>go out.Reconnect()\<close> statements it has executed. \<^verbatim>\<open>time.NewTicker\<close> panics
  for an interval that is not positive. Calling a method of the nil \<^verbatim>\<open>out.Conn\<close> panics.
  \<^verbatim>\<open>pending\<close> is a Go \<^verbatim>\<open>int\<close>, taken as 64 bits wide: \<^verbatim>\<open>pending += 1\<close> wraps around.
\<close>

datatype panic = Panic string

record worker =
  wout :: RedisOutput
  pending :: int
  flushTicker :: "Duration option"
  reconnects :: nat

definition SendMessagesGoroutine_start :: "RedisOutput \<Rightarrow> panic + worker" where
  "SendMessagesGoroutine_start out =
     (if \<not> flush_immediatelly out then
        (if FlushInterval out \<le> 0 then Inl (Panic ''non-positive interval for NewTicker'')
         else Inr \<lparr>wout = out, pending = 0, flushTicker = Some (FlushInterval out), reconnects = 0\<rparr>)
      else Inr \<lparr>wout = out, pending = 0, flushTicker = None, reconnects = 0\<rparr>)"

text \<open>The two cases of the \<^verbatim>\<open>select\<close>: a message from the queue, or a tick.\<close>

datatype event = Msg RedisQueueMsg | Tick

text \<open>\<^verbatim>\<open>if err != nil { out.connected = false; go out.Reconnect() }\<close>\<close>

definition on_err :: "worker \<Rightarrow> error option \<Rightarrow> worker" where
  "on_err w err =
     (case err of
        None \<Rightarrow> w
      | Some e \<Rightarrow> w\<lparr>wout := (wout w)\<lparr>connected := False\<rparr>, reconnects := Suc (reconnects w)\<rparr>)"

text \<open>\<^verbatim>\<open>command := "RPUSH"; if out.DataType == RedisChannelType { command = "PUBLISH" }\<close>\<close>

definition redis_command :: "RedisOutput \<Rightarrow> string" where
  "redis_command out = (if DataType out = RedisChannelType then ''PUBLISH'' else ''RPUSH'')"

definition on_queueMsg :: "worker \<Rightarrow> RedisQueueMsg \<Rightarrow> panic + worker" where
  "on_queueMsg w queueMsg =
     (if \<not> connected (wout w) then Inr w
      else
        let command = redis_command (wout w)
        in case Conn (wout w) of
             None \<Rightarrow> Inl (Panic ''nil pointer dereference'')
           | Some c \<Rightarrow>
               if \<not> flush_immediatelly (wout w) then
                 (case conn_Send c command [S (index queueMsg), S (msg queueMsg)] of
                    (err, c') \<Rightarrow>
                      Inr (on_err (w\<lparr>wout := (wout w)\<lparr>Conn := Some c'\<rparr>,
                                     pending := wrap64 (pending w + 1)\<rparr>) err))
               else
                 (case conn_Do c command [S (index queueMsg), S (msg queueMsg)] of
                    (r, c') \<Rightarrow>
                      Inr (on_err (w\<lparr>wout := (wout w)\<lparr>Conn := Some c'\<rparr>\<rparr>)
                             (case r of Inl err \<Rightarrow> Some err | Inr _ \<Rightarrow> None))))"

definition on_flush :: "worker \<Rightarrow> panic + worker" where
  "on_flush w =
     (if pending w > 0 then
        (case Conn (wout w) of
           None \<Rightarrow> Inl (Panic ''nil pointer dereference'')
         | Some c \<Rightarrow>
             (case conn_Receive (conn_Flush c) of
                (r, c') \<Rightarrow>
                  Inr ((on_err (w\<lparr>wout := (wout w)\<lparr>Conn := Some c'\<rparr>\<rparr>)
                          (case r of Inl err \<Rightarrow> Some err | Inr _ \<Rightarrow> None))\<lparr>pending := 0\<rparr>)))
      else Inr w)"

text \<open>
  One iteration of the \<^verbatim>\<open>for { select { ... } }\<close> loop. The flush channel of a worker
  without a ticker never delivers, so a tick leaves such a worker as it is.
\<close>

definition SendMessages_step :: "worker \<Rightarrow> event \<Rightarrow> panic + worker" where
  "SendMessages_step w ev =
     (case ev of
        Msg queueMsg \<Rightarrow> on_queueMsg w queueMsg
      | Tick \<Rightarrow> (if flushTicker w = None then Inr w else on_flush w))"

fun SendMessages_run :: "worker \<Rightarrow> event list \<Rightarrow> panic + worker" where
  "SendMessages_run w [] = Inr w"
| "SendMessages_run w (ev # evs) =
     (case SendMessages_step w ev of
        Inl p \<Rightarrow> Inl p
      | Inr w' \<Rightarrow> SendMessages_run w' evs)"

subsection \<open>Init\<close>

text \<open>
  The configuration part of \<^verbatim>\<open>Init\<close>, up to and including the \<^verbatim>\<open>switch\<close> on the data
  type. \<open>Init\<close> below continues with \<^verbatim>\<open>out.Reconnect()\<close> and \<^verbatim>\<open>go out.SendMessagesGoroutine()\<close>.
  A guarded assignment \<^verbatim>\<open>if c { out.F = v }\<close> is the update of \<open>F\<close> to \<open>v\<close> if \<open>c\<close> holds and
  to its old value otherwise.
\<close>

definition Init_config :: "RedisOutput \<Rightarrow> Config \<Rightarrow> int \<Rightarrow> error option \<times> RedisOutput" where
  "Init_config out0 config topology_expire =
     (let o1 = out0\<lparr>Hostname := Sprintf_host_port (Host config) (Port config)\<rparr>;
          o2 = o1\<lparr>Password := (if Config.Password config \<noteq> [] then Config.Password config else Password o1)\<rparr>;
          o3 = o2\<lparr>Db := (if Config.Db config \<noteq> 0 then Config.Db config else Db o2)\<rparr>;
          o4 = o3\<lparr>DbTopology := 1\<rparr>;
          o5 = o4\<lparr>DbTopology := (if Config.DbTopology config \<noteq> 0 then Config.DbTopology config
                                  else DbTopology o4)\<rparr>;
          o6 = o5\<lparr>Timeout := duration_mul 5 Second\<rparr>;
          o7 = o6\<lparr>Timeout := (if Config.Timeout config \<noteq> 0 then duration_mul (Config.Timeout config) Second
                               else Timeout o6)\<rparr>;
          o8 = o7\<lparr>Index := (if Config.Index config \<noteq> [] then Config.Index config else ''packetbeat'')\<rparr>;
          o9 = o8\<lparr>FlushInterval := duration_mul 1000 Millisecond\<rparr>;
          o10 = (case Config.FlushInterval config of
                   None \<Rightarrow> o9
                 | Some n \<Rightarrow>
                     if n < 0 then o9\<lparr>flush_immediatelly := True\<rparr>
                     else o9\<lparr>FlushInterval := duration_mul n Millisecond\<rparr>);
          o11 = o10\<lparr>ReconnectInterval := duration_mul 1 Second\<rparr>;
          o12 = o11\<lparr>ReconnectInterval :=
                      (if Config.ReconnectInterval config \<noteq> 0
                       then duration_mul (Config.ReconnectInterval config) Second
                       else ReconnectInterval o11)\<rparr>;
          exp_sec = (if topology_expire \<noteq> 0 then topology_expire else 15);
          o13 = o12\<lparr>TopologyExpire := duration_mul exp_sec Second\<rparr>
      in if Config.DataType config = [] \<or> Config.DataType config = ''list''
         then (None, o13\<lparr>DataType := RedisListType\<rparr>)
         else if Config.DataType config = ''channel''
         then (None, o13\<lparr>DataType := RedisChannelType\<rparr>)
         else (Some (Error ''Bad Redis data type''), o13))"

text \<open>
  \<open>Init\<close> returns \<open>None\<close> when it does not return (the reconnect loop runs forever).
  Otherwise it returns the error (\<open>None\<close> is nil), the output, and the worker it has
  started with \<^verbatim>\<open>go\<close>, if any: the worker's first state, or the panic of its start.
\<close>

definition Init ::
  "RedisOutput \<Rightarrow> Config \<Rightarrow> int \<Rightarrow> (nat \<Rightarrow> error + conn)
     \<Rightarrow> (error option \<times> RedisOutput \<times> (panic + worker) option) option" where
  "Init out0 config topology_expire dials =
     (case Init_config out0 config topology_expire of
        (Some err, o1) \<Rightarrow> Some (Some err, o1, None)
      | (None, o1) \<Rightarrow>
          (case Reconnect o1 dials 0 [] of
             None \<Rightarrow> None
           | Some (o2, n, log) \<Rightarrow> Some (None, o2, Some (SendMessagesGoroutine_start o2))))"

section \<open>Notions of the specification\<close>

text \<open>
  A registry state, as a refresh reads it: the identities \<open>ks\<close> that \<^verbatim>\<open>KEYS *\<close> lists, and
  for each identity \<open>k\<close> the outcome \<open>reg k\<close> of reading its address list. The identity
  \<open>k\<close> lists the address \<open>ip\<close> when its address list was read and \<open>ip\<close> is one of its
  comma-separated entries, as \<^verbatim>\<open>strings.Split\<close> gives them: the entries of a joined non-empty
  list of comma-free addresses are its addresses, and the empty list has the single
  entry \<open>[]\<close>, the empty string.
\<close>

definition lists_address :: "(string \<Rightarrow> error + string) \<Rightarrow> string \<Rightarrow> string \<Rightarrow> bool" where
  "lists_address reg ip k =
     (case reg k of Inl err \<Rightarrow> False | Inr res \<Rightarrow> ip \<in> set (strings_Split res CHR '',''))"

text \<open>The actions of a worker for one message, in batched and in immediate mode.\<close>

definition send_action :: "RedisOutput \<Rightarrow> RedisQueueMsg \<Rightarrow> action" where
  "send_action out m = ASend (redis_command out) [S (index m), S (msg m)]"

definition do_action :: "RedisOutput \<Rightarrow> RedisQueueMsg \<Rightarrow> action" where
  "do_action out m = ADo (redis_command out) [S (index m), S (msg m)]"

text \<open>What the reconnect loop logs for the failed attempts \<open>0, \<dots>, k - 1\<close>.\<close>

definition failed_attempts :: "RedisOutput \<Rightarrow> (nat \<Rightarrow> error + conn) \<Rightarrow> nat \<Rightarrow> reconnect_event list" where
  "failed_attempts out dials k =
     concat (map (\<lambda>j. [ConnectFailed (projl (fst (RedisConnect out (Db out) (dials j)))),
                        Sleep (ReconnectInterval out)]) [0..<k])"

text \<open>
  Attempt \<open>k\<close> is the first of a run to succeed, with the connection \<open>c\<close>. The last
  value a run has written to \<^verbatim>\<open>out.Conn\<close>. What holds of one run, and of the system of
  two, after any schedule.
\<close>

definition first_success :: "RedisOutput \<Rightarrow> (nat \<Rightarrow> error + conn) \<Rightarrow> nat \<Rightarrow> conn \<Rightarrow> bool" where
  "first_success out dials k c \<longleftrightarrow>
     (\<forall>j<k. isl (fst (RedisConnect out (Db out) (dials j)))) \<and> fst (RedisConnect out (Db out) (dials k)) = Inr c"

definition last_write :: "loop_id \<Rightarrow> (loop_id \<times> conn option) list \<Rightarrow> conn option option" where
  "last_write b ws =
     (if filter (\<lambda>w. fst w = b) ws = [] then None else Some (snd (last (filter (\<lambda>w. fst w = b) ws))))"

definition thread_inv :: "RedisOutput \<Rightarrow> (nat \<Rightarrow> error + conn) \<Rightarrow> loop_id \<Rightarrow> sys \<Rightarrow> bool" where
  "thread_inv out dials b s =
     (case threads s b of
        Attempt i \<Rightarrow> (\<forall>j<i. isl (fst (RedisConnect out (Db out) (dials j))))
      | Mark \<Rightarrow> (\<exists>k c. first_success out dials k c \<and> last_write b (writes s) = Some (Some c))
      | Returned \<Rightarrow> (\<exists>k c. first_success out dials k c \<and> last_write b (writes s) = Some (Some c)) \<and>
                    connected (shared s))"

definition sys_inv :: "RedisOutput \<Rightarrow> (loop_id \<Rightarrow> nat \<Rightarrow> error + conn) \<Rightarrow> sys \<Rightarrow> bool" where
  "sys_inv out dials s \<longleftrightarrow>
     Password (shared s) = Password out \<and> Db (shared s) = Db out \<and>
     (writes s \<noteq> [] \<longrightarrow> Conn (shared s) = snd (last (writes s))) \<and>
     (\<forall>b. thread_inv out (dials b) b s)"

section \<open>Example environments and values\<close>

text \<open>A server that accepts everything, and one that fails every action.\<close>

definition ok_env :: "action list \<Rightarrow> error + reply" where
  "ok_env h = Inr (StatusReply ''OK'')"

definition down_env :: "action list \<Rightarrow> error + reply" where
  "down_env h = Inl (Error ''EOF'')"

text \<open>A server on which sending works and reading a reply fails.\<close>

definition receive_fails_env :: "action list \<Rightarrow> error + reply" where
  "receive_fails_env h = (if last h = AReceive then Inl (Error ''EOF'') else Inr (StatusReply ''OK''))"

text \<open>A topology store holding the given records, and one whose listing fails.\<close>

fun registry_reply :: "(string \<times> string) list \<Rightarrow> action \<Rightarrow> error + reply" where
  "registry_reply reg (ADo name args) =
     (if name = ''KEYS'' then Inr (MultiBulk (map fst reg))
      else if name = ''HGET'' then
        (case args of
           S k # _ \<Rightarrow> (case map_of reg k of None \<Rightarrow> Inr NilReply | Some v \<Rightarrow> Inr (BulkReply v))
         | _ \<Rightarrow> Inl (Error ''ERR wrong number of arguments''))
      else Inr (StatusReply ''OK''))"
| "registry_reply reg _ = Inr (StatusReply ''OK'')"

definition registry_env :: "(string \<times> string) list \<Rightarrow> action list \<Rightarrow> error + reply" where
  "registry_env reg h = registry_reply reg (last h)"

definition keys_fails_env :: "action list \<Rightarrow> error + reply" where
  "keys_fails_env h =
     (if last h = ADo ''KEYS'' [S ''*''] then Inl (Error ''EOF'') else Inr (StatusReply ''OK''))"

definition registry_AB :: "(string \<times> string) list" where
  "registry_AB = [(''A'', ''10.0.0.1,10.0.0.2''), (''B'', ''10.0.0.3'')]"

definition new_conn :: "nat \<Rightarrow> (action list \<Rightarrow> error + reply) \<Rightarrow> conn" where
  "new_conn n e = \<lparr>cid = n, env = e, hist = []\<rparr>"

text \<open>The zero value of \<^verbatim>\<open>RedisOutput\<close> and a configuration that sets host and port only.\<close>

definition out_zero :: RedisOutput where
  "out_zero =
     \<lparr>Index = [], Conn = None, TopologyExpire = 0, ReconnectInterval = 0, Hostname = [],
      Password = [], Db = 0, DbTopology = 0, Timeout = 0, DataType = RedisListType,
      FlushInterval = 0, flush_immediatelly = False, TopologyMap = Map.empty, connected = False\<rparr>"

definition config_localhost :: Config where
  "config_localhost =
     \<lparr>Host = ''localhost'', Port = 6379, Password = [], Index = [], Db = 0, DbTopology = 0,
      Timeout = 0, ReconnectInterval = 0, DataType = [], FlushInterval = None\<rparr>"

text \<open>Dial outcomes: every dial fails; every dial succeeds; the first two dials fail.\<close>

definition dials_down :: "nat \<Rightarrow> error + conn" where
  "dials_down i = Inl (Error ''connection refused'')"

definition dials_up :: "nat \<Rightarrow> nat \<Rightarrow> error + conn" where
  "dials_up n i = Inr (new_conn n ok_env)"

definition dials_third :: "nat \<Rightarrow> error + conn" where
  "dials_third i = (if i < 2 then Inl (Error ''connection refused'') else Inr (new_conn i ok_env))"

text \<open>Outputs, messages and workers used in the examples.\<close>

definition out_known :: RedisOutput where
  "out_known = out_zero\<lparr>TopologyMap := [''10.0.0.1'' \<mapsto> ''A'']\<rparr>"

definition out_password :: RedisOutput where
  "out_password = out_zero\<lparr>Password := ''secret''\<rparr>"

definition out_configured :: RedisOutput where
  "out_configured = snd (Init_config out_zero config_localhost 0)"

definition msg1 :: RedisQueueMsg where
  "msg1 = \<lparr>index = ''packetbeat'', msg = ''event 1''\<rparr>"

definition msg2 :: RedisQueueMsg where
  "msg2 = \<lparr>index = ''packetbeat'', msg = ''event 2''\<rparr>"

definition worker_down :: worker where
  "worker_down = \<lparr>wout = out_zero, pending = 0, flushTicker = Some 1000000000, reconnects = 0\<rparr>"

text \<open>A server that refuses writes; configurations with a zero flush interval, with a flush
  interval beyond the milliseconds that a \<^verbatim>\<open>time.Duration\<close> holds, and with an unknown
  data type.\<close>

definition readonly_env :: "action list \<Rightarrow> error + reply" where
  "readonly_env h =
     (case last h of
        ADo name args \<Rightarrow> if name = ''HSET'' then Inl (Error ''READONLY'') else Inr (StatusReply ''OK'')
      | _ \<Rightarrow> Inr (StatusReply ''OK''))"

definition config_flush0 :: Config where
  "config_flush0 =
     \<lparr>Host = ''localhost'', Port = 6379, Password = [], Index = [], Db = 0, DbTopology = 0,
      Timeout = 0, ReconnectInterval = 0, DataType = [], FlushInterval = Some 0\<rparr>"

definition config_flush_wrap :: Config where
  "config_flush_wrap =
     \<lparr>Host = ''localhost'', Port = 6379, Password = [], Index = [], Db = 0, DbTopology = 0,
      Timeout = 0, ReconnectInterval = 0, DataType = [], FlushInterval = Some 9223372036855\<rparr>"

definition config_stream :: Config where
  "config_stream =
     \<lparr>Host = ''localhost'', Port = 6379, Password = [], Index = [], Db = 0, DbTopology = 0,
      Timeout = 0, ReconnectInterval = 0, DataType = ''stream'', FlushInterval = None\<rparr>"

text \<open>The output after one reconnect loop has returned, and after a second one has.\<close>

definition out_after_first :: RedisOutput where
  "out_after_first = fst (the (Reconnect out_configured (dials_up 1) 0 []))"

definition out_after_second :: RedisOutput where
  "out_after_second = fst (the (Reconnect out_after_first (dials_up 2) 0 []))"

text \<open>The output after a publish against the store \<open>registry_AB\<close>; a connected worker in
  batched mode.\<close>

definition out_published :: RedisOutput where
  "out_published =
     out_configured\<lparr>TopologyMap := [''10.0.0.1'' \<mapsto> ''A'', ''10.0.0.2'' \<mapsto> ''A'', ''10.0.0.3'' \<mapsto> ''B'']\<rparr>"

definition worker_batched :: "(action list \<Rightarrow> error + reply) \<Rightarrow> worker" where
  "worker_batched e =
     \<lparr>wout = out_configured\<lparr>Conn := Some (new_conn 1 e), connected := True\<rparr>,
      pending = 0, flushTicker = Some 1000000000, reconnects = 0\<rparr>"

text \<open>An output configured with an expiration beyond the range of a \<^verbatim>\<open>time.Duration\<close>; the
  dials of two reconnecting goroutines, all succeeding, and with the first two dials of
  the first goroutine failing; a connected worker in batched mode whose handle is nil.\<close>

definition out_long_expire :: RedisOutput where
  "out_long_expire = snd (Init_config out_zero config_localhost 9223372037)"

fun dials_two :: "loop_id \<Rightarrow> nat \<Rightarrow> error + conn" where
  "dials_two Loop1 = dials_up 1"
| "dials_two Loop2 = dials_up 2"

fun dials_late :: "loop_id \<Rightarrow> nat \<Rightarrow> error + conn" where
  "dials_late Loop1 = dials_third"
| "dials_late Loop2 = dials_up 5"

definition worker_nil :: worker where
  "worker_nil =
     \<lparr>wout = out_configured\<lparr>connected := True\<rparr>, pending = 1, flushTicker = Some 1000000000, reconnects = 0\<rparr>"

section \<open>Basic facts\<close>

lemma conn_Do_eq:
  "conn_Do c name args = (env c (hist c @ [ADo name args]), c\<lparr>hist := hist c @ [ADo name args]\<rparr>)"
  by (simp add: conn_Do_def Let_def)

lemma RedisConnect_Conn [simp]: "RedisConnect (out\<lparr>Conn := x\<rparr>) db d = RedisConnect out db d"
  by (auto simp: RedisConnect_def split: sum.splits)

lemma range_ipaddrs_apply:
  "range_ipaddrs tmp hostname addrs ip = (if ip \<in> set addrs then Some hostname else tmp ip)"
  by (induction addrs arbitrary: tmp) auto

lemma find_snoc:
  "find P (xs @ [x]) = (case find P xs of None \<Rightarrow> (if P x then Some x else None) | Some y \<Rightarrow> Some y)"
  by (induction xs) auto

lemma find_in: "find P xs = Some x \<Longrightarrow> x \<in> set xs \<and> P x"
  by (induction xs) (auto split: if_splits)

text \<open>
  The map the outer loop builds, read at one address: the last identity in listing
  order that lists the address wins; an address no identity lists keeps its entry.
\<close>

lemma range_hostnames_map:
  assumes "\<forall>h. \<forall>k\<in>set ks. redis_String (env conn (h @ [ADo ''HGET'' [S k, S ''ipaddrs'']])) = reg k"
  shows "snd (range_hostnames conn tmp ks) ip =
           (case find (lists_address reg ip) (rev ks) of None \<Rightarrow> tmp ip | Some k \<Rightarrow> Some k)"
  using assms
proof (induction ks arbitrary: conn tmp)
  case Nil
  then show ?case by simp
next
  case (Cons k ks)
  let ?c = "conn\<lparr>hist := hist conn @ [ADo ''HGET'' [S k, S ''ipaddrs'']]\<rparr>"
  have r: "redis_String (env conn (hist conn @ [ADo ''HGET'' [S k, S ''ipaddrs'']])) = reg k"
    using Cons.prems by simp
  have e: "\<forall>h. \<forall>k\<in>set ks. redis_String (env ?c (h @ [ADo ''HGET'' [S k, S ''ipaddrs'']])) = reg k"
    using Cons.prems by simp
  define tmp' where
    "tmp' = (case reg k of Inl err \<Rightarrow> tmp | Inr res \<Rightarrow> range_ipaddrs tmp k (strings_Split res CHR '',''))"
  have s: "range_hostnames conn tmp (k # ks) = range_hostnames ?c tmp' ks"
    using r by (simp add: conn_Do_eq tmp'_def split: sum.splits)
  have t: "tmp' ip = (if lists_address reg ip k then Some k else tmp ip)"
    by (simp add: tmp'_def lists_address_def range_ipaddrs_apply split: sum.splits)
  show ?case
    unfolding s using Cons.IH[OF e, of tmp'] t
    by (simp add: find_snoc split: option.splits)
qed

lemma range_hostnames_hist:
  "hist (fst (range_hostnames conn tmp ks)) = hist conn @ map (\<lambda>k. ADo ''HGET'' [S k, S ''ipaddrs'']) ks"
  by (induction ks arbitrary: conn tmp) (auto simp: conn_Do_eq case_prod_beta split: sum.splits)

text \<open>The reconnect loop started at attempt \<open>i\<close> returns at the first attempt that succeeds.\<close>

lemma Reconnect_first_success:
  assumes "\<forall>j<k. isl (fst (RedisConnect out (Db out) (dials (i + j))))"
    and "fst (RedisConnect out (Db out) (dials (i + k))) = Inr c"
  shows "Reconnect out dials i log =
     Some (out\<lparr>Conn := Some c, connected := True\<rparr>, i + k,
           log @ concat (map (\<lambda>j. [ConnectFailed (projl (fst (RedisConnect out (Db out) (dials j)))),
                                   Sleep (ReconnectInterval out)]) [i..<i + k]))"
  using assms
proof (induction k arbitrary: i out log)
  case 0
  then show ?case by (subst Reconnect.simps) (simp add: Connect_def)
next
  case (Suc k)
  from Suc.prems(1) have f0: "isl (fst (RedisConnect out (Db out) (dials i)))"
    by (metis add.right_neutral zero_less_Suc)
  have f1: "\<forall>j<k. isl (fst (RedisConnect (out\<lparr>Conn := None\<rparr>) (Db (out\<lparr>Conn := None\<rparr>)) (dials (Suc i + j))))"
    using Suc.prems(1)
    by (metis RedisConnect_Conn add_Suc_shift Suc_less_eq RedisOutput.select_convs(7)
        RedisOutput.surjective RedisOutput.update_convs(2))
  have f2: "fst (RedisConnect (out\<lparr>Conn := None\<rparr>) (Db (out\<lparr>Conn := None\<rparr>)) (dials (Suc i + k))) = Inr c"
    using Suc.prems(2) by simp
  note IH = Suc.IH[OF f1 f2]
  have u: "[i..<i + Suc k] = i # [Suc i..<Suc i + k]"
    by (simp add: upt_conv_Cons)
  from f0 obtain e where e: "fst (RedisConnect out (Db out) (dials i)) = Inl e"
    by (auto simp: isl_def)
  have "Reconnect out dials i log = Reconnect (out\<lparr>Conn := None\<rparr>) dials (Suc i)
          (log @ [ConnectFailed e, Sleep (ReconnectInterval out)])"
    by (subst Reconnect.simps) (simp add: Connect_def e)
  also note IH
  finally show ?case
    unfolding u by (simp add: e)
qed

text \<open>If the loop returns, some attempt has succeeded.\<close>

lemma Reconnect_Some_success:
  "Reconnect out dials i log = Some r \<Longrightarrow> \<exists>j\<ge>i. \<not> isl (fst (RedisConnect out (Db out) (dials j)))"
proof (induction rule: Reconnect.raw_induct[rotated 1, consumes 1])
  case (1 Reconnect out dials i log r)
  show ?case
  proof (cases "fst (RedisConnect out (Db out) (dials i))")
    case (Inl e)
    with 1(2) have "Reconnect (out\<lparr>Conn := None\<rparr>) dials (Suc i)
        (log @ [ConnectFailed e, Sleep (ReconnectInterval (out\<lparr>Conn := None\<rparr>))]) = Some r"
      by (simp add: Connect_def)
    from 1(1)[OF this] obtain j where "j \<ge> Suc i" "\<not> isl (fst (RedisConnect out (Db out) (dials j)))"
      by auto
    then show ?thesis by (metis Suc_leD)
  next
    case (Inr c)
    then show ?thesis by (metis le_refl sum.disc(2))
  qed
qed

lemma Reconnect_all_fail:
  assumes "\<forall>j. isl (fst (RedisConnect out (Db out) (dials j)))"
  shows "Reconnect out dials 0 [] = None"
proof (cases "Reconnect out dials 0 []")
  case None
  then show ?thesis .
next
  case (Some r)
  from Reconnect_Some_success[OF this] assms show ?thesis by blast
qed

lemma out_configured_fields:
  "Password out_configured = [] \<and> Db out_configured = 0 \<and> ReconnectInterval out_configured = 1000000000"
  by (simp add: out_configured_def Init_config_def config_localhost_def out_zero_def Let_def
      duration_mul_def wrap64_def Second_def)

lemma conn_Send_eq:
  "conn_Send c name args =
     ((case env c (hist c @ [ASend name args]) of Inl err \<Rightarrow> Some err | Inr _ \<Rightarrow> None),
      c\<lparr>hist := hist c @ [ASend name args]\<rparr>)"
  by (simp add: conn_Send_def Let_def)

lemma conn_Receive_Flush_eq:
  "conn_Receive (conn_Flush c) =
     (env c (hist c @ [AFlush, AReceive]), c\<lparr>hist := hist c @ [AFlush, AReceive]\<rparr>)"
  by (simp add: conn_Receive_def conn_Flush_def Let_def)

text \<open>\<open>RedisConnect\<close> reads the password of the output and nothing else of it.\<close>

lemma RedisConnect_Password:
  "Password o1 = Password o2 \<Longrightarrow> RedisConnect o1 db d = RedisConnect o2 db d"
  by (cases d) (simp_all add: RedisConnect_def)

lemma RedisConnect_healed [simp]:
  "RedisConnect (out\<lparr>Conn := x, connected := y\<rparr>) db d = RedisConnect out db d"
  by (rule RedisConnect_Password) simp

lemma failed_attempts_healed [simp]:
  "failed_attempts (out\<lparr>Conn := x, connected := y\<rparr>) dials k = failed_attempts out dials k"
  by (simp add: failed_attempts_def)

text \<open>Splitting undoes joining for a non-empty list of comma-free addresses.\<close>

lemma strings_Split_no_sep: "sep \<notin> set x \<Longrightarrow> strings_Split x sep = [x]"
  by (induction x) auto

lemma strings_Split_first: "sep \<notin> set x \<Longrightarrow> strings_Split (x @ sep # rest) sep = x # strings_Split rest sep"
  by (induction x) auto

lemma lists_address_empty_list: "reg k = Inr [] \<Longrightarrow> lists_address reg ip k = (ip = [])"
  by (simp add: lists_address_def)

lemma strings_Split_Join:
  "xs \<noteq> [] \<Longrightarrow> \<forall>x\<in>set xs. sep \<notin> set x \<Longrightarrow> strings_Split (strings_Join xs sep) sep = xs"
  by (induction xs sep rule: strings_Join.induct) (simp_all add: strings_Split_no_sep strings_Split_first)

text \<open>The fields that the configuration part of \<open>Init\<close> sets.\<close>

lemma Init_config_error_iff:
  "fst (Init_config out0 config te) =
     (if Config.DataType config \<in> {[], ''list'', ''channel''} then None else Some (Error ''Bad Redis data type''))"
  by (simp add: Init_config_def Let_def)

lemma ic_DbTopology:
  "DbTopology (snd (Init_config out0 config te)) = (if Config.DbTopology config \<noteq> 0 then Config.DbTopology config else 1)"
  by (cases "Config.FlushInterval config") (simp_all add: Init_config_def Let_def)

lemma ic_Timeout:
  "Timeout (snd (Init_config out0 config te)) =
     duration_mul (if Config.Timeout config \<noteq> 0 then Config.Timeout config else 5) Second"
  by (cases "Config.FlushInterval config") (simp_all add: Init_config_def Let_def)

lemma ic_Index:
  "Index (snd (Init_config out0 config te)) = (if Config.Index config \<noteq> [] then Config.Index config else ''packetbeat'')"
  by (cases "Config.FlushInterval config") (simp_all add: Init_config_def Let_def)

lemma ic_ReconnectInterval:
  "ReconnectInterval (snd (Init_config out0 config te)) =
     duration_mul (if Config.ReconnectInterval config \<noteq> 0 then Config.ReconnectInterval config else 1) Second"
  by (cases "Config.FlushInterval config") (simp_all add: Init_config_def Let_def)

lemma ic_TopologyExpire:
  "TopologyExpire (snd (Init_config out0 config te)) = duration_mul (if te \<noteq> 0 then te else 15) Second"
  by (cases "Config.FlushInterval config") (simp_all add: Init_config_def Let_def)

lemma ic_FlushInterval:
  "FlushInterval (snd (Init_config out0 config te)) =
     (case Config.FlushInterval config of
        None \<Rightarrow> 1000 * Millisecond
      | Some n \<Rightarrow> if n < 0 then 1000 * Millisecond else duration_mul n Millisecond)"
  by (cases "Config.FlushInterval config")
     (simp_all add: Init_config_def Let_def duration_mul_def wrap64_def Millisecond_def)

lemma ic_flush_immediatelly:
  "flush_immediatelly (snd (Init_config out0 config te)) =
     (flush_immediatelly out0 \<or> (\<exists>n. Config.FlushInterval config = Some n \<and> n < 0))"
  by (cases "Config.FlushInterval config") (simp_all add: Init_config_def Let_def)

text \<open>\<open>Init\<close> after the configuration part.\<close>

lemma Init_invalid:
  assumes "Config.DataType config \<notin> {[], ''list'', ''channel''}"
  shows "Init out0 config te dials =
           Some (Some (Error ''Bad Redis data type''), snd (Init_config out0 config te), None)"
proof -
  have ic: "Init_config out0 config te = (fst (Init_config out0 config te), snd (Init_config out0 config te))"
    by simp
  show ?thesis
    using assms Init_config_error_iff[of out0 config te]
    by (subst Init_def, subst ic) simp
qed

lemma Init_valid:
  assumes "Config.DataType config \<in> {[], ''list'', ''channel''}"
  shows "Init out0 config te dials =
      (case Reconnect (snd (Init_config out0 config te)) dials 0 [] of
         None \<Rightarrow> None
       | Some (o2, n, log) \<Rightarrow> Some (None, o2, Some (SendMessagesGoroutine_start o2)))"
proof -
  have ic: "Init_config out0 config te = (fst (Init_config out0 config te), snd (Init_config out0 config te))"
    by simp
  show ?thesis
    using assms Init_config_error_iff[of out0 config te]
    by (subst Init_def, subst ic) simp
qed

lemma out_configured_mode:
  "\<not> flush_immediatelly out_configured \<and> DataType out_configured = RedisListType \<and>
   FlushInterval out_configured = 1000000000"
  by (simp add: out_configured_def Init_config_def config_localhost_def out_zero_def Let_def
      duration_mul_def wrap64_def Millisecond_def)

lemma out_configured_topology:
  "DbTopology out_configured = 1 \<and> TopologyExpire out_configured = 15000000000 \<and> Password out_configured = []"
  by (simp add: out_configured_def Init_config_def config_localhost_def out_zero_def Let_def
      duration_mul_def wrap64_def Second_def)

text \<open>Durations of whole seconds within the range of int64 nanoseconds.\<close>

lemma wrap64_id: "- (2 ^ 63) \<le> x \<Longrightarrow> x < 2 ^ 63 \<Longrightarrow> wrap64 x = x"
  by (simp add: wrap64_def mod_pos_pos_trivial)

text \<open>Rounding to binary64 keeps an integer below \<open>2^53\<close>, so whole seconds are exact.\<close>

lemma bit_length_numeral [simp]:
  "bit_length 0 = 0"
  "bit_length (numeral k) = Suc (bit_length (numeral k div 2))"
  "bit_length (Suc 0) = Suc 0"
  by (simp_all add: bit_length.simps[of 0] bit_length.simps[of "numeral k"] bit_length.simps[of "Suc 0"])

lemma bit_length_bound: "n < 2 ^ k \<Longrightarrow> bit_length n \<le> k"
proof (induction k arbitrary: n)
  case 0
  then show ?case by simp
next
  case (Suc k)
  show ?case
  proof (cases "n = 0")
    case True
    then show ?thesis by simp
  next
    case False
    have "n div 2 < 2 ^ k" using Suc.prems by simp
    from Suc.IH[OF this] False show ?thesis
      by (subst bit_length.simps) simp
  qed
qed

lemma round_half_even_one [simp]: "round_half_even n 1 = n"
  by (simp add: round_half_even_def)

lemma f64_round_int:
  assumes "0 \<le> n" "n < 2 ^ 53"
  shows "case f64_round n 1 of (s, j) \<Rightarrow> s div 2 ^ j = n"
proof (cases "n = 0")
  case True
  then show ?thesis by (simp add: f64_round_def)
next
  case False
  have "nat n < 2 ^ 53" using assms by (simp add: nat_less_iff)
  from bit_length_bound[OF this] have "f64_exponent n 1 \<le> 52"
    using assms False by (simp add: f64_exponent_def)
  then show ?thesis using False by (simp add: f64_round_def Let_def)
qed

lemma Seconds_int_whole_nonneg:
  assumes "0 \<le> n" "n < 2 ^ 53"
  shows "Seconds_int (n * 1000000000) = n" "Seconds_int (- (n * 1000000000)) = - n"
  using f64_round_int[OF assms] assms
  by (auto simp: Seconds_int_def Second_def f64_round_def[of 0] Let_def abs_mult split: prod.splits)

lemma Seconds_int_whole:
  assumes "\<bar>n\<bar> \<le> 9223372036"
  shows "Seconds_int (duration_mul n Second) = n"
proof -
  have b: "- (2 ^ 63) \<le> n * 1000000000" "n * 1000000000 < 2 ^ 63"
    using assms by simp_all
  have w: "duration_mul n Second = n * 1000000000"
    using wrap64_id[OF b] by (simp add: duration_mul_def Second_def)
  show ?thesis
  proof (cases "0 \<le> n")
    case True
    then have "n < 2 ^ 53" using assms by simp
    from Seconds_int_whole_nonneg(1)[OF True this] show ?thesis unfolding w .
  next
    case False
    then have p: "0 \<le> - n" "- n < 2 ^ 53" using assms by simp_all
    from Seconds_int_whole_nonneg(2)[OF p] show ?thesis unfolding w by simp
  qed
qed

lemma Seconds_int_15: "Seconds_int 15000000000 = 15"
  using Seconds_int_whole_nonneg(1)[of 15] by simp

text \<open>What a refresh sends: \<^verbatim>\<open>KEYS *\<close>, then one \<^verbatim>\<open>HGET\<close> for each identity listed.\<close>

lemma UpdateLocalTopologyMap_hist:
  "\<exists>hgets. hist (snd (UpdateLocalTopologyMap out conn)) = hist conn @ ADo ''KEYS'' [S ''*''] # hgets \<and>
           (\<forall>a\<in>set hgets. \<exists>k. a = ADo ''HGET'' [S k, S ''ipaddrs''])"
proof (cases "redis_Strings (env conn (hist conn @ [ADo ''KEYS'' [S ''*'']]))")
  case (Inl e)
  then have "hist (snd (UpdateLocalTopologyMap out conn)) = hist conn @ ADo ''KEYS'' [S ''*''] # []"
    by (simp add: UpdateLocalTopologyMap_def conn_Do_eq)
  then show ?thesis by fastforce
next
  case (Inr ks)
  then have "hist (snd (UpdateLocalTopologyMap out conn)) =
      hist conn @ ADo ''KEYS'' [S ''*''] # map (\<lambda>k. ADo ''HGET'' [S k, S ''ipaddrs'']) ks"
    using range_hostnames_hist[of "conn\<lparr>hist := hist conn @ [ADo ''KEYS'' [S ''*'']]\<rparr>" Map.empty ks]
    by (simp add: UpdateLocalTopologyMap_def conn_Do_eq case_prod_beta)
  then show ?thesis by fastforce
qed

lemma UpdateLocalTopologyMap_TopologyExpire:
  "TopologyExpire (fst (UpdateLocalTopologyMap out conn)) = TopologyExpire out"
  by (simp add: UpdateLocalTopologyMap_def conn_Do_eq case_prod_beta split: sum.splits)

text \<open>The example publish, evaluated.\<close>

lemma publish_example:
  "PublishIPs (out_configured\<lparr>TopologyMap := m\<rparr>) ''A'' [''10.0.0.1'', ''10.0.0.2'']
      (Inr (new_conn n (registry_env registry_AB))) =
     (None, out_published,
      [ADo ''PING'' [], ADo ''SELECT'' [I 1],
       ADo ''HSET'' [S ''A'', S ''ipaddrs'', S ''10.0.0.1,10.0.0.2''],
       ADo ''EXPIRE'' [S ''A'', I 15],
       ADo ''KEYS'' [S ''*''],
       ADo ''HGET'' [S ''A'', S ''ipaddrs''], ADo ''HGET'' [S ''B'', S ''ipaddrs''],
       AClose])"
  by (simp add: PublishIPs_def RedisConnect_def conn_Do_eq conn_Close_def UpdateLocalTopologyMap_def
      out_configured_topology new_conn_def registry_env_def registry_AB_def Seconds_int_15
      out_published_def)

text \<open>The example runs of the reconnect loop, evaluated.\<close>

lemma dials_up_connect:
  "fst (RedisConnect out_configured (Db out_configured) (dials_up n i)) =
     Inr ((new_conn n ok_env)\<lparr>hist := [ADo ''PING'' [], ADo ''SELECT'' [I 0]]\<rparr>)"
  by (simp add: RedisConnect_def dials_up_def out_configured_fields conn_Do_eq new_conn_def ok_env_def)

lemma Reconnect_up:
  "Reconnect (out_configured\<lparr>Conn := x, connected := y\<rparr>) (dials_up n) 0 [] =
     Some (out_configured\<lparr>Conn := Some ((new_conn n ok_env)\<lparr>hist := [ADo ''PING'' [], ADo ''SELECT'' [I 0]]\<rparr>),
                          connected := True\<rparr>, 0, [])"
proof -
  have "fst (RedisConnect (out_configured\<lparr>Conn := x, connected := y\<rparr>)
              (Db (out_configured\<lparr>Conn := x, connected := y\<rparr>)) (dials_up n (0 + 0))) =
          Inr ((new_conn n ok_env)\<lparr>hist := [ADo ''PING'' [], ADo ''SELECT'' [I 0]]\<rparr>)"
    using dials_up_connect[of n 0] by simp
  from Reconnect_first_success[where k = 0 and i = 0 and log = "[]"
      and out = "out_configured\<lparr>Conn := x, connected := y\<rparr>" and dials = "dials_up n", OF _ this]
  show ?thesis by simp
qed

lemma out_after_first_eq:
  "out_after_first =
     out_configured\<lparr>Conn := Some ((new_conn 1 ok_env)\<lparr>hist := [ADo ''PING'' [], ADo ''SELECT'' [I 0]]\<rparr>),
                    connected := True\<rparr>"
proof -
  have "out_configured\<lparr>Conn := Conn out_configured, connected := connected out_configured\<rparr> = out_configured"
    by simp
  with Reconnect_up[where x = "Conn out_configured" and y = "connected out_configured" and n = 1]
  show ?thesis by (simp add: out_after_first_def)
qed

text \<open>
  Two reconnect runs on one output: every state reached by a schedule satisfies
  \<open>sys_inv\<close>. The steps of one run, taken together, are those of \<open>Connect\<close>.
\<close>

lemma last_write_snoc_same [simp]: "last_write b (ws @ [(b, v)]) = Some v"
  by (simp add: last_write_def)

lemma last_write_snoc_other [simp]: "b' \<noteq> b \<Longrightarrow> last_write b (ws @ [(b', v)]) = last_write b ws"
  by (simp add: last_write_def)

lemma last_write_last: "ws \<noteq> [] \<Longrightarrow> last_write (fst (last ws)) ws = Some (snd (last ws))"
proof (induction ws rule: rev_induct)
  case Nil
  then show ?case by simp
next
  case (snoc x xs)
  have "x = (fst x, snd x)" by simp
  then show ?case
    by (metis last_snoc last_write_snoc_same)
qed

lemma last_write_mem:
  assumes "last_write b ws = Some v"
  shows "(b, v) \<in> set ws"
proof -
  let ?xs = "filter (\<lambda>w. fst w = b) ws"
  have n: "?xs \<noteq> []" and v: "snd (last ?xs) = v"
    using assms by (auto simp: last_write_def split: if_splits)
  have m: "last ?xs \<in> set ?xs"
    using n by (rule last_in_set)
  then have "fst (last ?xs) = b" and "last ?xs \<in> set ws"
    by simp_all
  then show ?thesis
    using v by (metis prod.collapse)
qed

lemma first_success_unique:
  "first_success out dials k c \<Longrightarrow> first_success out dials k' c' \<Longrightarrow> c' = c"
proof -
  assume a: "first_success out dials k c" and b: "first_success out dials k' c'"
  have "k = k'"
  proof (rule ccontr)
    assume "k \<noteq> k'"
    then consider "k < k'" | "k' < k" by linarith
    then show False
      using a b by cases (auto simp: first_success_def)
  qed
  then show ?thesis using a b by (simp add: first_success_def)
qed

lemma sys_inv_start: "sys_inv out dials (sys_start out)"
  by (simp add: sys_inv_def sys_start_def thread_inv_def)

text \<open>The kinds of step.\<close>

lemma sys_step_fail:
  assumes "threads s b = Attempt i" "fst (RedisConnect (shared s) (Db (shared s)) (dials b i)) = Inl e"
  shows "sys_step dials s b =
     s\<lparr>shared := (shared s)\<lparr>Conn := None\<rparr>, threads := (threads s)(b := Attempt (Suc i)),
       writes := writes s @ [(b, None)]\<rparr>"
  using assms by (simp add: sys_step_def thread_step_def)

lemma sys_step_success:
  assumes "threads s b = Attempt i" "fst (RedisConnect (shared s) (Db (shared s)) (dials b i)) = Inr c"
  shows "sys_step dials s b =
     s\<lparr>shared := (shared s)\<lparr>Conn := Some c\<rparr>, threads := (threads s)(b := Mark),
       writes := writes s @ [(b, Some c)]\<rparr>"
  using assms by (simp add: sys_step_def thread_step_def)

lemma sys_step_mark:
  assumes "threads s b = Mark"
  shows "sys_step dials s b = s\<lparr>shared := (shared s)\<lparr>connected := True\<rparr>, threads := (threads s)(b := Returned)\<rparr>"
  using assms by (simp add: sys_step_def thread_step_def)

lemma sys_step_returned:
  assumes "threads s b = Returned"
  shows "sys_step dials s b = s"
  using assms by (simp add: sys_step_def thread_step_def fun_upd_idem)

lemma thread_inv_other_write:
  assumes "thread_inv out d b' s" "b' \<noteq> b"
  shows "thread_inv out d b' (s\<lparr>shared := (shared s)\<lparr>Conn := x\<rparr>, threads := (threads s)(b := t),
                                 writes := writes s @ [(b, v)]\<rparr>)"
  using assms by (cases "threads s b'") (simp_all add: thread_inv_def)

lemma thread_inv_other_mark:
  assumes "thread_inv out d b' s" "b' \<noteq> b"
  shows "thread_inv out d b' (s\<lparr>shared := (shared s)\<lparr>connected := True\<rparr>, threads := (threads s)(b := t)\<rparr>)"
  using assms by (cases "threads s b'") (simp_all add: thread_inv_def)

lemma sys_inv_step:
  assumes inv: "sys_inv out dials s"
  shows "sys_inv out dials (sys_step dials s b)"
proof -
  have P: "Password (shared s) = Password out" and D: "Db (shared s) = Db out"
    and C: "writes s \<noteq> [] \<longrightarrow> Conn (shared s) = snd (last (writes s))"
    and T: "\<And>b'. thread_inv out (dials b') b' s"
    using inv by (simp_all add: sys_inv_def)
  have R: "RedisConnect (shared s) (Db (shared s)) d = RedisConnect out (Db out) d" for d
    using RedisConnect_Password[OF P] D by simp
  show ?thesis
  proof (cases "threads s b")
    case (Attempt i)
    have F: "\<forall>j<i. isl (fst (RedisConnect out (Db out) (dials b j)))"
      using T[of b] Attempt by (simp add: thread_inv_def)
    show ?thesis
    proof (cases "fst (RedisConnect out (Db out) (dials b i))")
      case (Inl e)
      let ?s = "s\<lparr>shared := (shared s)\<lparr>Conn := None\<rparr>, threads := (threads s)(b := Attempt (Suc i)),
                   writes := writes s @ [(b, None)]\<rparr>"
      have st: "sys_step dials s b = ?s"
        using sys_step_fail[OF Attempt, of dials e] Inl R by simp
      have own: "thread_inv out (dials b) b ?s"
        using F Inl by (auto simp: thread_inv_def less_Suc_eq)
      have oth: "thread_inv out (dials b') b' ?s" if "b' \<noteq> b" for b'
        using thread_inv_other_write[OF T that] .
      have all: "\<forall>b'. thread_inv out (dials b') b' ?s"
        using own oth by metis
      show ?thesis
        unfolding st using P D all by (simp add: sys_inv_def)
    next
      case (Inr c)
      let ?s = "s\<lparr>shared := (shared s)\<lparr>Conn := Some c\<rparr>, threads := (threads s)(b := Mark),
                   writes := writes s @ [(b, Some c)]\<rparr>"
      have st: "sys_step dials s b = ?s"
        using sys_step_success[OF Attempt, of dials c] Inr R by simp
      have fs: "first_success out (dials b) i c"
        using F Inr by (simp add: first_success_def)
      have own: "thread_inv out (dials b) b ?s"
        using fs by (auto simp: thread_inv_def)
      have oth: "thread_inv out (dials b') b' ?s" if "b' \<noteq> b" for b'
        using thread_inv_other_write[OF T that] .
      have all: "\<forall>b'. thread_inv out (dials b') b' ?s"
        using own oth by metis
      show ?thesis
        unfolding st using P D all by (simp add: sys_inv_def)
    qed
  next
    case Mark
    let ?s = "s\<lparr>shared := (shared s)\<lparr>connected := True\<rparr>, threads := (threads s)(b := Returned)\<rparr>"
    have st: "sys_step dials s b = ?s"
      using sys_step_mark[OF Mark] .
    have own: "thread_inv out (dials b) b ?s"
      using T[of b] Mark by (simp add: thread_inv_def)
    have oth: "thread_inv out (dials b') b' ?s" if "b' \<noteq> b" for b'
      using thread_inv_other_mark[OF T that] .
    have all: "\<forall>b'. thread_inv out (dials b') b' ?s"
      using own oth by metis
    show ?thesis
      unfolding st using P D C all by (simp add: sys_inv_def)
  next
    case Returned
    show ?thesis
      unfolding sys_step_returned[OF Returned] by (rule inv)
  qed
qed

lemma sys_inv_run: "sys_inv out dials (sys_run dials out sch)"
  unfolding sys_run_def
  by (induction sch rule: rev_induct) (simp_all add: sys_inv_start sys_inv_step)


lemma thread_step_Connect:
  "fst (RedisConnect out (Db out) (dials i)) = Inr c \<Longrightarrow>
   thread_step out dials (Attempt i) = (out\<lparr>Conn := Some c\<rparr>, Mark, Some (Some c)) \<and>
   thread_step (out\<lparr>Conn := Some c\<rparr>) dials Mark = (snd (Connect out (dials i)), Returned, None)"
  by (simp add: thread_step_def Connect_def)

lemma thread_step_Connect_fail:
  "fst (RedisConnect out (Db out) (dials i)) = Inl e \<Longrightarrow>
   thread_step out dials (Attempt i) = (snd (Connect out (dials i)), Attempt (Suc i), Some None)"
  by (simp add: thread_step_def Connect_def)

lemma both_returned:
  assumes f1: "first_success out (dials Loop1) k1 c1" and f2: "first_success out (dials Loop2) k2 c2"
    and r1: "threads (sys_run dials out sch) Loop1 = Returned"
    and r2: "threads (sys_run dials out sch) Loop2 = Returned"
  shows "connected (shared (sys_run dials out sch)) \<and>
         (Loop1, Some c1) \<in> set (writes (sys_run dials out sch)) \<and>
         (Loop2, Some c2) \<in> set (writes (sys_run dials out sch)) \<and>
         Conn (shared (sys_run dials out sch)) = snd (last (writes (sys_run dials out sch))) \<and>
         (Conn (shared (sys_run dials out sch)) = Some c1 \<or> Conn (shared (sys_run dials out sch)) = Some c2)"
proof -
  let ?s = "sys_run dials out sch"
  have inv: "sys_inv out dials ?s" by (rule sys_inv_run)
  then have C: "writes ?s \<noteq> [] \<longrightarrow> Conn (shared ?s) = snd (last (writes ?s))"
    and T: "\<And>b. thread_inv out (dials b) b ?s"
    by (simp_all add: sys_inv_def)
  from T[of Loop1] r1 obtain k c where a: "first_success out (dials Loop1) k c"
      "last_write Loop1 (writes ?s) = Some (Some c)" and cn: "connected (shared ?s)"
    by (auto simp: thread_inv_def)
  from T[of Loop2] r2 obtain k' c' where b: "first_success out (dials Loop2) k' c'"
      "last_write Loop2 (writes ?s) = Some (Some c')"
    by (auto simp: thread_inv_def)
  have e1: "c = c1" using first_success_unique[OF f1 a(1)] .
  have e2: "c' = c2" using first_success_unique[OF f2 b(1)] .
  have l1: "last_write Loop1 (writes ?s) = Some (Some c1)" using a(2) e1 by simp
  have l2: "last_write Loop2 (writes ?s) = Some (Some c2)" using b(2) e2 by simp
  have m1: "(Loop1, Some c1) \<in> set (writes ?s)" using last_write_mem[OF l1] .
  have m2: "(Loop2, Some c2) \<in> set (writes ?s)" using last_write_mem[OF l2] .
  have ne: "writes ?s \<noteq> []" using m1 by auto
  have cl: "Conn (shared ?s) = snd (last (writes ?s))" using C ne by simp
  have lw: "last_write (fst (last (writes ?s))) (writes ?s) = Some (snd (last (writes ?s)))"
    using last_write_last[OF ne] .
  have "snd (last (writes ?s)) = Some c1 \<or> snd (last (writes ?s)) = Some c2"
  proof (cases "fst (last (writes ?s))")
    case Loop1
    then show ?thesis using lw l1 by simp
  next
    case Loop2
    then show ?thesis using lw l2 by simp
  qed
  then show ?thesis using cn m1 m2 cl by simp
qed

text \<open>The example schedules, evaluated.\<close>

lemma dials_two_connect:
  "fst (RedisConnect out_configured (Db out_configured) (dials_two Loop1 i)) =
     Inr ((new_conn 1 ok_env)\<lparr>hist := [ADo ''PING'' [], ADo ''SELECT'' [I 0]]\<rparr>)"
  "fst (RedisConnect out_configured (Db out_configured) (dials_two Loop2 i)) =
     Inr ((new_conn 2 ok_env)\<lparr>hist := [ADo ''PING'' [], ADo ''SELECT'' [I 0]]\<rparr>)"
  using dials_up_connect[of 1 i] dials_up_connect[of 2 i] by simp_all

lemma dials_two_first:
  "first_success out_configured (dials_two Loop1) 0 ((new_conn 1 ok_env)\<lparr>hist := [ADo ''PING'' [], ADo ''SELECT'' [I 0]]\<rparr>)"
  "first_success out_configured (dials_two Loop2) 0 ((new_conn 2 ok_env)\<lparr>hist := [ADo ''PING'' [], ADo ''SELECT'' [I 0]]\<rparr>)"
  using dials_two_connect[of 0] by (simp_all add: first_success_def)

lemma run_overlap:
  "sys_run dials_two out_configured [Loop1, Loop2, Loop2, Loop1] =
     \<lparr>shared = out_configured\<lparr>Conn := Some ((new_conn 2 ok_env)\<lparr>hist := [ADo ''PING'' [], ADo ''SELECT'' [I 0]]\<rparr>),
                               connected := True\<rparr>,
      threads = (\<lambda>b. Returned),
      writes = [(Loop1, Some ((new_conn 1 ok_env)\<lparr>hist := [ADo ''PING'' [], ADo ''SELECT'' [I 0]]\<rparr>)),
                (Loop2, Some ((new_conn 2 ok_env)\<lparr>hist := [ADo ''PING'' [], ADo ''SELECT'' [I 0]]\<rparr>))]\<rparr>"
proof -
  have l: "(\<lambda>b. Attempt 0)(Loop1 := Returned, Loop2 := Returned) = (\<lambda>b. Returned)"
    by (rule ext) (case_tac b, simp_all)
  have l': "(\<lambda>b. Attempt 0)(Loop2 := Returned, Loop1 := Returned) = (\<lambda>b. Returned)"
    by (rule ext) (case_tac b, simp_all)
  show ?thesis
    by (simp add: sys_run_def sys_start_def sys_step_def thread_step_def dials_two_connect l l'
        del: dials_two.simps)
qed


lemma dials_late_connect:
  "fst (RedisConnect out_configured (Db out_configured) (dials_late Loop1 i)) =
     (if i < 2 then Inl (Error ''connection refused'')
      else Inr ((new_conn i ok_env)\<lparr>hist := [ADo ''PING'' [], ADo ''SELECT'' [I 0]]\<rparr>))"
  "fst (RedisConnect out_configured (Db out_configured) (dials_late Loop2 i)) =
     Inr ((new_conn 5 ok_env)\<lparr>hist := [ADo ''PING'' [], ADo ''SELECT'' [I 0]]\<rparr>)"
  using dials_up_connect[of 5 i]
  by (simp_all add: RedisConnect_def dials_third_def out_configured_fields conn_Do_eq new_conn_def ok_env_def)

lemma dials_late_first:
  "first_success out_configured (dials_late Loop1) 2 ((new_conn 2 ok_env)\<lparr>hist := [ADo ''PING'' [], ADo ''SELECT'' [I 0]]\<rparr>)"
  "first_success out_configured (dials_late Loop2) 0 ((new_conn 5 ok_env)\<lparr>hist := [ADo ''PING'' [], ADo ''SELECT'' [I 0]]\<rparr>)"
  by (simp_all add: first_success_def dials_late_connect del: dials_late.simps)

lemma run_late:
  "sys_run dials_late out_configured [Loop1, Loop2, Loop1, Loop2, Loop1, Loop1] =
     \<lparr>shared = out_configured\<lparr>Conn := Some ((new_conn 2 ok_env)\<lparr>hist := [ADo ''PING'' [], ADo ''SELECT'' [I 0]]\<rparr>),
                               connected := True\<rparr>,
      threads = (\<lambda>b. Returned),
      writes = [(Loop1, None),
                (Loop2, Some ((new_conn 5 ok_env)\<lparr>hist := [ADo ''PING'' [], ADo ''SELECT'' [I 0]]\<rparr>)),
                (Loop1, None),
                (Loop1, Some ((new_conn 2 ok_env)\<lparr>hist := [ADo ''PING'' [], ADo ''SELECT'' [I 0]]\<rparr>))]\<rparr>"
proof -
  have l: "(\<lambda>b. Attempt 0)(Loop2 := Returned, Loop1 := Returned) = (\<lambda>b. Returned)"
    by (rule ext) (case_tac b, simp_all)
  have t: "Suc (Suc 0) = 2" by simp
  show ?thesis
    by (simp add: sys_run_def sys_start_def sys_step_def thread_step_def dials_late_connect l t
        del: dials_late.simps)
qed

lemma run_nil:
  "sys_run dials_late out_configured [Loop2, Loop2, Loop1] =
     \<lparr>shared = out_configured\<lparr>Conn := None, connected := True\<rparr>,
      threads = (\<lambda>b. Attempt 0)(Loop2 := Returned, Loop1 := Attempt (Suc 0)),
      writes = [(Loop2, Some ((new_conn 5 ok_env)\<lparr>hist := [ADo ''PING'' [], ADo ''SELECT'' [I 0]]\<rparr>)),
                (Loop1, None)]\<rparr>"
  by (simp add: sys_run_def sys_start_def sys_step_def thread_step_def dials_late_connect
      del: dials_late.simps)

text \<open>One iteration of the worker, case by case.\<close>

lemma step_Msg_batched:
  "connected (wout w) \<Longrightarrow> \<not> flush_immediatelly (wout w) \<Longrightarrow> Conn (wout w) = Some c \<Longrightarrow>
   SendMessages_step w (Msg m) =
     Inr (on_err (w\<lparr>wout := (wout w)\<lparr>Conn := Some (c\<lparr>hist := hist c @ [send_action (wout w) m]\<rparr>)\<rparr>,
                    pending := wrap64 (pending w + 1)\<rparr>)
            (case env c (hist c @ [send_action (wout w) m]) of Inl err \<Rightarrow> Some err | Inr _ \<Rightarrow> None))"
  by (simp add: SendMessages_step_def on_queueMsg_def Let_def conn_Send_eq send_action_def)

lemma step_Msg_immediate:
  "connected (wout w) \<Longrightarrow> flush_immediatelly (wout w) \<Longrightarrow> Conn (wout w) = Some c \<Longrightarrow>
   SendMessages_step w (Msg m) =
     Inr (on_err (w\<lparr>wout := (wout w)\<lparr>Conn := Some (c\<lparr>hist := hist c @ [do_action (wout w) m]\<rparr>)\<rparr>\<rparr>)
            (case env c (hist c @ [do_action (wout w) m]) of Inl err \<Rightarrow> Some err | Inr _ \<Rightarrow> None))"
  by (simp add: SendMessages_step_def on_queueMsg_def Let_def conn_Do_eq do_action_def)

lemma step_Tick_flush:
  "0 < pending w \<Longrightarrow> flushTicker w \<noteq> None \<Longrightarrow> Conn (wout w) = Some c \<Longrightarrow>
   SendMessages_step w Tick =
     Inr ((on_err (w\<lparr>wout := (wout w)\<lparr>Conn := Some (c\<lparr>hist := hist c @ [AFlush, AReceive]\<rparr>)\<rparr>\<rparr>)
             (case env c (hist c @ [AFlush, AReceive]) of Inl err \<Rightarrow> Some err | Inr _ \<Rightarrow> None))
          \<lparr>pending := 0\<rparr>)"
  by (auto simp: SendMessages_step_def on_flush_def conn_Receive_Flush_eq)

lemma step_Tick_idle: "pending w \<le> 0 \<Longrightarrow> SendMessages_step w Tick = Inr w"
  by (simp add: SendMessages_step_def on_flush_def)

lemma do_action_Conn [simp]: "do_action (out\<lparr>Conn := x\<rparr>) = do_action out"
  by (rule ext) (simp add: do_action_def redis_command_def)

lemma send_action_Conn [simp]: "send_action (out\<lparr>Conn := x\<rparr>) = send_action out"
  by (rule ext) (simp add: send_action_def redis_command_def)

lemma run_append:
  "SendMessages_run w (es @ fs) =
     (case SendMessages_run w es of Inl p \<Rightarrow> Inl p | Inr w' \<Rightarrow> SendMessages_run w' fs)"
  by (induction es arbitrary: w) (auto split: sum.splits)

section \<open>Topology refresh and lookup\<close>

text \<open>
  C1. Let the registry list the identities \<open>ks\<close> and give, for each of them, the address
  list \<open>reg k\<close> (or a failure to read it). A refresh replaces the local map by the
  inversion address \<open>\<mapsto>\<close> identity: the map sends an address to the identity that lists
  it (the last one in listing order, should several list it). A lookup afterwards
  returns an identity that lists the address, for every listed address, and the empty
  string for every address that no identity lists.
\<close>

theorem Refresh_then_Lookup:
  assumes keys: "redis_Strings (env conn (hist conn @ [ADo ''KEYS'' [S ''*'']])) = Inr ks"
    and hget: "\<forall>h. \<forall>k\<in>set ks. redis_String (env conn (h @ [ADo ''HGET'' [S k, S ''ipaddrs'']])) = reg k"
  shows "TopologyMap (fst (UpdateLocalTopologyMap out conn)) = (\<lambda>ip. find (lists_address reg ip) (rev ks)) \<and>
    (\<forall>ip. (\<exists>k\<in>set ks. lists_address reg ip k) \<longrightarrow>
       (\<exists>k\<in>set ks. lists_address reg ip k \<and> GetNameByIP (fst (UpdateLocalTopologyMap out conn)) ip = k)) \<and>
    (\<forall>ip. (\<forall>k\<in>set ks. \<not> lists_address reg ip k) \<longrightarrow>
       GetNameByIP (fst (UpdateLocalTopologyMap out conn)) ip = [])"
proof -
  let ?c = "conn\<lparr>hist := hist conn @ [ADo ''KEYS'' [S ''*'']]\<rparr>"
  have e: "\<forall>h. \<forall>k\<in>set ks. redis_String (env ?c (h @ [ADo ''HGET'' [S k, S ''ipaddrs'']])) = reg k"
    using hget by simp
  have m: "TopologyMap (fst (UpdateLocalTopologyMap out conn)) ip = find (lists_address reg ip) (rev ks)" for ip
    using range_hostnames_map[OF e, of Map.empty ip] keys
    by (simp add: UpdateLocalTopologyMap_def conn_Do_eq case_prod_beta split: option.splits)
  have a: "TopologyMap (fst (UpdateLocalTopologyMap out conn)) = (\<lambda>ip. find (lists_address reg ip) (rev ks))"
    using m by blast
  have b: "\<exists>k\<in>set ks. lists_address reg ip k \<and> GetNameByIP (fst (UpdateLocalTopologyMap out conn)) ip = k"
    if "\<exists>k\<in>set ks. lists_address reg ip k" for ip
  proof -
    from that have "find (lists_address reg ip) (rev ks) \<noteq> None"
      by (auto simp: find_None_iff)
    then obtain k where k: "find (lists_address reg ip) (rev ks) = Some k" by auto
    from find_in[OF k] show ?thesis
      by (auto simp: GetNameByIP_def m k)
  qed
  have c: "GetNameByIP (fst (UpdateLocalTopologyMap out conn)) ip = []"
    if "\<forall>k\<in>set ks. \<not> lists_address reg ip k" for ip
  proof -
    from that have "find (lists_address reg ip) (rev ks) = None"
      by (auto simp: find_None_iff)
    then show ?thesis by (simp add: GetNameByIP_def m)
  qed
  from a b c show ?thesis by blast
qed

text \<open>The registry \<open>{A: "10.0.0.1,10.0.0.2", B: "10.0.0.3"}\<close> of the specification.\<close>

theorem Refresh_then_Lookup_witness:
  "GetNameByIP (fst (UpdateLocalTopologyMap out_zero (new_conn 1 (registry_env registry_AB)))) ''10.0.0.2'' = ''A'' \<and>
   GetNameByIP (fst (UpdateLocalTopologyMap out_zero (new_conn 1 (registry_env registry_AB)))) ''10.0.0.3'' = ''B'' \<and>
   GetNameByIP (fst (UpdateLocalTopologyMap out_zero (new_conn 1 (registry_env registry_AB)))) ''10.0.0.9'' = []"
proof -
  have k: "redis_Strings (env (new_conn 1 (registry_env registry_AB))
             (hist (new_conn 1 (registry_env registry_AB)) @ [ADo ''KEYS'' [S ''*'']])) = Inr [''A'', ''B'']"
    by (simp add: new_conn_def registry_env_def registry_AB_def)
  have g: "\<forall>h. \<forall>k\<in>set [''A'', ''B''].
           redis_String (env (new_conn 1 (registry_env registry_AB)) (h @ [ADo ''HGET'' [S k, S ''ipaddrs'']]))
             = (if k = ''A'' then Inr ''10.0.0.1,10.0.0.2'' else Inr ''10.0.0.3'')"
    by (simp add: new_conn_def registry_env_def registry_AB_def)
  from Refresh_then_Lookup[OF k g, of out_zero] show ?thesis
    by (simp add: GetNameByIP_def lists_address_def)
qed

text \<open>
  C10. If listing the identities fails, the refresh returns the output as it was: the
  local topology map is not replaced and the previous map stays in place.
\<close>

theorem Refresh_listing_failure_keeps_map:
  "redis_Strings (env conn (hist conn @ [ADo ''KEYS'' [S ''*'']])) = Inl err \<Longrightarrow>
   fst (UpdateLocalTopologyMap out conn) = out \<and>
   TopologyMap (fst (UpdateLocalTopologyMap out conn)) = TopologyMap out"
  by (simp add: UpdateLocalTopologyMap_def conn_Do_eq)

theorem Refresh_listing_failure_keeps_map_witness:
  "redis_Strings (env (new_conn 1 keys_fails_env) (hist (new_conn 1 keys_fails_env) @ [ADo ''KEYS'' [S ''*'']]))
     = Inl (Error ''EOF'') \<and>
   fst (UpdateLocalTopologyMap out_known (new_conn 1 keys_fails_env)) = out_known \<and>
   GetNameByIP (fst (UpdateLocalTopologyMap out_known (new_conn 1 keys_fails_env))) ''10.0.0.1'' = ''A''"
proof -
  have k: "redis_Strings (env (new_conn 1 keys_fails_env) (hist (new_conn 1 keys_fails_env) @ [ADo ''KEYS'' [S ''*'']]))
     = Inl (Error ''EOF'')"
    by (simp add: new_conn_def keys_fails_env_def)
  from Refresh_listing_failure_keeps_map[OF k, of out_known] k show ?thesis
    by (simp add: GetNameByIP_def out_known_def)
qed

section \<open>Topology publish\<close>

text \<open>
  C7 as stated fails for an expiration beyond the range of a \<^verbatim>\<open>time.Duration\<close>: with
  \<^verbatim>\<open>topology_expire = 9223372037\<close> the product with \<^verbatim>\<open>time.Second\<close> wraps around, \<open>Init\<close>
  stores a negative duration, and the publish sets the expiration \<open>-9223372036\<close>, not
  the configured one.
\<close>

theorem long_expiration_wraps:
  "TopologyExpire out_long_expire = - 9223372036709551616 \<and>
   PublishIPs out_long_expire ''A'' [''10.0.0.1'', ''10.0.0.2''] (Inr (new_conn 1 (registry_env registry_AB))) =
     (None,
      out_long_expire\<lparr>TopologyMap := [''10.0.0.1'' \<mapsto> ''A'', ''10.0.0.2'' \<mapsto> ''A'', ''10.0.0.3'' \<mapsto> ''B'']\<rparr>,
      [ADo ''PING'' [], ADo ''SELECT'' [I 1],
       ADo ''HSET'' [S ''A'', S ''ipaddrs'', S ''10.0.0.1,10.0.0.2''],
       ADo ''EXPIRE'' [S ''A'', I (- 9223372036)],
       ADo ''KEYS'' [S ''*''],
       ADo ''HGET'' [S ''A'', S ''ipaddrs''], ADo ''HGET'' [S ''B'', S ''ipaddrs''],
       AClose])"
proof -
  have t: "DbTopology out_long_expire = 1 \<and> TopologyExpire out_long_expire = - 9223372036709551616 \<and>
           Password out_long_expire = []"
    by (simp add: out_long_expire_def Init_config_def config_localhost_def out_zero_def Let_def
        duration_mul_def wrap64_def Second_def)
  have s: "Seconds_int (- 9223372036709551616) = - 9223372036"
    by (simp add: Seconds_int_def Second_def f64_round_def f64_exponent_def round_half_even_def Let_def)
  show ?thesis
    by (simp add: PublishIPs_def RedisConnect_def conn_Do_eq conn_Close_def UpdateLocalTopologyMap_def
        t s new_conn_def registry_env_def registry_AB_def)
qed

text \<open>
  C7, as the code has it. Every \<open>PublishIPs\<close> opens its own connection (\<open>RedisConnect\<close> to
  the topology database; without a connection it returns the connect error). On that
  connection it writes the identity with the comma-joined address list (\<^verbatim>\<open>HSET\<close>), then
  sets the expiration of the record to \<^verbatim>\<open>int(out.TopologyExpire.Seconds())\<close> (\<^verbatim>\<open>EXPIRE\<close>),
  then refreshes (\<^verbatim>\<open>KEYS *\<close> and the \<^verbatim>\<open>HGET\<close>s), then closes. If the write or the expiration
  fails it returns that error, after closing. A publish leaves \<open>TopologyExpire\<close> as it
  is, so every later publish sets the same expiration again. After \<open>Init\<close> that number
  of seconds is 15 when no expiration is configured, and the configured number \<open>te\<close> of
  seconds whenever \<open>\<bar>te\<bar> \<le> 9223372036\<close>, the whole seconds that a \<^verbatim>\<open>time.Duration\<close> holds.
\<close>

theorem PublishIPs_protocol:
  "(let r = RedisConnect out (DbTopology out) dial;
        hset = ADo ''HSET'' [S name, S ''ipaddrs'', S (strings_Join localAddrs CHR '','')];
        expire = ADo ''EXPIRE'' [S name, I (Seconds_int (TopologyExpire out))]
    in (\<forall>e. fst r = Inl e \<longrightarrow> PublishIPs out name localAddrs dial = (Some e, out, snd r)) \<and>
       (\<forall>c. fst r = Inr c \<longrightarrow>
          (\<forall>e. env c (hist c @ [hset]) = Inl e \<longrightarrow>
              PublishIPs out name localAddrs dial = (Some e, out, hist c @ [hset, AClose])) \<and>
          (\<forall>e. \<not> isl (env c (hist c @ [hset])) \<and> env c (hist c @ [hset, expire]) = Inl e \<longrightarrow>
              PublishIPs out name localAddrs dial = (Some e, out, hist c @ [hset, expire, AClose])) \<and>
          (\<not> isl (env c (hist c @ [hset])) \<and> \<not> isl (env c (hist c @ [hset, expire])) \<longrightarrow>
              (\<exists>hgets. PublishIPs out name localAddrs dial =
                         (None, fst (UpdateLocalTopologyMap out (c\<lparr>hist := hist c @ [hset, expire]\<rparr>)),
                          hist c @ [hset, expire, ADo ''KEYS'' [S ''*'']] @ hgets @ [AClose]) \<and>
                       (\<forall>a\<in>set hgets. \<exists>k. a = ADo ''HGET'' [S k, S ''ipaddrs''])))) \<and>
       TopologyExpire (fst (snd (PublishIPs out name localAddrs dial))) = TopologyExpire out) \<and>
   Seconds_int (TopologyExpire (snd (Init_config out0 config 0))) = 15 \<and>
   (\<forall>te. te \<noteq> 0 \<and> \<bar>te\<bar> \<le> 9223372036 \<longrightarrow> Seconds_int (TopologyExpire (snd (Init_config out0 config te))) = te)"
proof -
  let ?r = "RedisConnect out (DbTopology out) dial"
  let ?hset = "ADo ''HSET'' [S name, S ''ipaddrs'', S (strings_Join localAddrs CHR '','')]"
  let ?expire = "ADo ''EXPIRE'' [S name, I (Seconds_int (TopologyExpire out))]"
  let ?P = "PublishIPs out name localAddrs dial"
  have a: "?P = (Some e, out, snd ?r)" if "fst ?r = Inl e" for e
    using that by (cases ?r) (simp add: PublishIPs_def)
  have b: "?P = (Some e, out, hist c @ [?hset, AClose])"
    if "fst ?r = Inr c" "env c (hist c @ [?hset]) = Inl e" for c e
    using that by (cases ?r) (simp add: PublishIPs_def conn_Do_eq conn_Close_def)
  have c: "?P = (Some e, out, hist c @ [?hset, ?expire, AClose])"
    if "fst ?r = Inr c" "\<not> isl (env c (hist c @ [?hset]))" "env c (hist c @ [?hset, ?expire]) = Inl e" for c e
    using that
    by (cases ?r; cases "env c (hist c @ [?hset])") (simp_all add: PublishIPs_def conn_Do_eq conn_Close_def)
  have d0: "?P = (None, fst (UpdateLocalTopologyMap out (c\<lparr>hist := hist c @ [?hset, ?expire]\<rparr>)),
                  hist (snd (UpdateLocalTopologyMap out (c\<lparr>hist := hist c @ [?hset, ?expire]\<rparr>))) @ [AClose])"
    if "fst ?r = Inr c" "\<not> isl (env c (hist c @ [?hset]))" "\<not> isl (env c (hist c @ [?hset, ?expire]))" for c
    using that
    by (cases ?r; cases "env c (hist c @ [?hset])"; cases "env c (hist c @ [?hset, ?expire])")
       (simp_all add: PublishIPs_def conn_Do_eq conn_Close_def case_prod_beta)
  have d: "\<exists>hgets. ?P = (None, fst (UpdateLocalTopologyMap out (c\<lparr>hist := hist c @ [?hset, ?expire]\<rparr>)),
                          hist c @ [?hset, ?expire, ADo ''KEYS'' [S ''*'']] @ hgets @ [AClose]) \<and>
                       (\<forall>a\<in>set hgets. \<exists>k. a = ADo ''HGET'' [S k, S ''ipaddrs''])"
    if "fst ?r = Inr c" "\<not> isl (env c (hist c @ [?hset]))" "\<not> isl (env c (hist c @ [?hset, ?expire]))" for c
  proof -
    from UpdateLocalTopologyMap_hist[of out "c\<lparr>hist := hist c @ [?hset, ?expire]\<rparr>"]
    obtain hgets where h: "hist (snd (UpdateLocalTopologyMap out (c\<lparr>hist := hist c @ [?hset, ?expire]\<rparr>)))
         = hist c @ [?hset, ?expire] @ ADo ''KEYS'' [S ''*''] # hgets"
       "\<forall>a\<in>set hgets. \<exists>k. a = ADo ''HGET'' [S k, S ''ipaddrs'']"
      by auto
    show ?thesis
      using d0[OF that] h by auto
  qed
  have e: "TopologyExpire (fst (snd ?P)) = TopologyExpire out"
    by (simp add: PublishIPs_def conn_Do_eq case_prod_beta UpdateLocalTopologyMap_TopologyExpire
        split: sum.splits)
  have f: "Seconds_int (TopologyExpire (snd (Init_config out0 config 0))) = 15"
    by (simp add: ic_TopologyExpire Seconds_int_whole)
  have g: "Seconds_int (TopologyExpire (snd (Init_config out0 config te))) = te"
    if "te \<noteq> 0 \<and> \<bar>te\<bar> \<le> 9223372036" for te
    using that by (simp add: ic_TopologyExpire Seconds_int_whole)
  show ?thesis
    unfolding Let_def using a b c d e f g by blast
qed

text \<open>
  Two publishes in a row with the default expiration: each sets the expiration 15. A
  publish to a store that refuses the write returns the error and closes. Configured
  expirations of 30 and of 9223372036 seconds are kept by \<open>Init\<close>.
\<close>

theorem PublishIPs_protocol_witness:
  "PublishIPs out_configured ''A'' [''10.0.0.1'', ''10.0.0.2''] (Inr (new_conn 1 (registry_env registry_AB))) =
     (None, out_published,
      [ADo ''PING'' [], ADo ''SELECT'' [I 1],
       ADo ''HSET'' [S ''A'', S ''ipaddrs'', S ''10.0.0.1,10.0.0.2''],
       ADo ''EXPIRE'' [S ''A'', I 15],
       ADo ''KEYS'' [S ''*''],
       ADo ''HGET'' [S ''A'', S ''ipaddrs''], ADo ''HGET'' [S ''B'', S ''ipaddrs''],
       AClose]) \<and>
   PublishIPs out_published ''A'' [''10.0.0.1'', ''10.0.0.2''] (Inr (new_conn 2 (registry_env registry_AB))) =
     (None, out_published,
      [ADo ''PING'' [], ADo ''SELECT'' [I 1],
       ADo ''HSET'' [S ''A'', S ''ipaddrs'', S ''10.0.0.1,10.0.0.2''],
       ADo ''EXPIRE'' [S ''A'', I 15],
       ADo ''KEYS'' [S ''*''],
       ADo ''HGET'' [S ''A'', S ''ipaddrs''], ADo ''HGET'' [S ''B'', S ''ipaddrs''],
       AClose]) \<and>
   PublishIPs out_configured ''A'' [''10.0.0.1'', ''10.0.0.2''] (Inr (new_conn 1 readonly_env)) =
     (Some (Error ''READONLY''), out_configured,
      [ADo ''PING'' [], ADo ''SELECT'' [I 1],
       ADo ''HSET'' [S ''A'', S ''ipaddrs'', S ''10.0.0.1,10.0.0.2''], AClose]) \<and>
   TopologyExpire out_published = TopologyExpire out_configured \<and>
   Seconds_int (TopologyExpire (snd (Init_config out_zero config_localhost 30))) = 30 \<and>
   Seconds_int (TopologyExpire (snd (Init_config out_zero config_localhost 9223372036))) = 9223372036"
proof -
  have 1: "PublishIPs out_configured ''A'' [''10.0.0.1'', ''10.0.0.2''] (Inr (new_conn 1 (registry_env registry_AB))) =
     (None, out_published,
      [ADo ''PING'' [], ADo ''SELECT'' [I 1],
       ADo ''HSET'' [S ''A'', S ''ipaddrs'', S ''10.0.0.1,10.0.0.2''],
       ADo ''EXPIRE'' [S ''A'', I 15],
       ADo ''KEYS'' [S ''*''],
       ADo ''HGET'' [S ''A'', S ''ipaddrs''], ADo ''HGET'' [S ''B'', S ''ipaddrs''],
       AClose])"
    using publish_example[of "TopologyMap out_configured" 1] by simp
  have 2: "PublishIPs out_published ''A'' [''10.0.0.1'', ''10.0.0.2''] (Inr (new_conn 2 (registry_env registry_AB))) =
     (None, out_published,
      [ADo ''PING'' [], ADo ''SELECT'' [I 1],
       ADo ''HSET'' [S ''A'', S ''ipaddrs'', S ''10.0.0.1,10.0.0.2''],
       ADo ''EXPIRE'' [S ''A'', I 15],
       ADo ''KEYS'' [S ''*''],
       ADo ''HGET'' [S ''A'', S ''ipaddrs''], ADo ''HGET'' [S ''B'', S ''ipaddrs''],
       AClose])"
    unfolding out_published_def by (rule publish_example[unfolded out_published_def])
  let ?c = "(new_conn 1 readonly_env)\<lparr>hist := [ADo ''PING'' [], ADo ''SELECT'' [I 1]]\<rparr>"
  have r: "fst (RedisConnect out_configured (DbTopology out_configured) (Inr (new_conn 1 readonly_env))) = Inr ?c"
    by (simp add: RedisConnect_def out_configured_topology conn_Do_eq new_conn_def readonly_env_def)
  have h: "env ?c (hist ?c @ [ADo ''HSET'' [S ''A'', S ''ipaddrs'', S (strings_Join [''10.0.0.1'', ''10.0.0.2''] CHR '','')]])
             = Inl (Error ''READONLY'')"
    by (simp add: new_conn_def readonly_env_def)
  note T = PublishIPs_protocol[of out_configured "Inr (new_conn 1 readonly_env)" "''A''"
        "[''10.0.0.1'', ''10.0.0.2'']", unfolded Let_def, THEN conjunct1, THEN conjunct2, THEN conjunct1,
        rule_format, OF r, THEN conjunct1, rule_format, OF h]
  have 3: "PublishIPs out_configured ''A'' [''10.0.0.1'', ''10.0.0.2''] (Inr (new_conn 1 readonly_env)) =
     (Some (Error ''READONLY''), out_configured,
      [ADo ''PING'' [], ADo ''SELECT'' [I 1],
       ADo ''HSET'' [S ''A'', S ''ipaddrs'', S ''10.0.0.1,10.0.0.2''], AClose])"
    using T by simp
  note E = PublishIPs_protocol[of out_configured "Inr (new_conn 1 (registry_env registry_AB))" "''A''"
        "[''10.0.0.1'', ''10.0.0.2'']", unfolded Let_def, THEN conjunct1, THEN conjunct2, THEN conjunct2]
  have 4: "TopologyExpire out_published = TopologyExpire out_configured"
    using E unfolding 1 by simp
  note I = PublishIPs_protocol[of out_zero "Inr (new_conn 1 ok_env)" "''A''" "[]" out_zero config_localhost,
        THEN conjunct2, THEN conjunct2, rule_format]
  have 5: "Seconds_int (TopologyExpire (snd (Init_config out_zero config_localhost 30))) = 30"
    using I[of 30] by simp
  have 6: "Seconds_int (TopologyExpire (snd (Init_config out_zero config_localhost 9223372036))) = 9223372036"
    using I[of 9223372036] by simp
  from 1 2 3 4 5 6 show ?thesis by blast
qed

section \<open>Connecting\<close>

text \<open>
  C6. \<open>RedisConnect\<close> dials, then sends \<^verbatim>\<open>AUTH\<close> if and only if a password is configured,
  then \<^verbatim>\<open>PING\<close>, then \<^verbatim>\<open>SELECT db\<close>. The first step that fails ends the call with that
  step's error, and the later steps are not performed (the history of the connection
  ends with the failed step). The call returns a connection exactly when every step
  succeeds.
\<close>

theorem RedisConnect_steps_in_order:
  "(\<forall>e. dial = Inl e \<longrightarrow> RedisConnect out db dial = (Inl e, [])) \<and>
   (\<forall>c. dial = Inr c \<longrightarrow>
      (let h1 = hist c @ (if Password out \<noteq> [] then [ADo ''AUTH'' [S (Password out)]] else []);
           h2 = h1 @ [ADo ''PING'' []];
           h3 = h2 @ [ADo ''SELECT'' [I db]];
           auth_ok = (Password out = [] \<or> \<not> isl (env c h1))
       in (\<forall>e. Password out \<noteq> [] \<and> env c h1 = Inl e \<longrightarrow> RedisConnect out db dial = (Inl e, h1)) \<and>
          (\<forall>e. auth_ok \<and> env c h2 = Inl e \<longrightarrow> RedisConnect out db dial = (Inl e, h2)) \<and>
          (\<forall>e. auth_ok \<and> \<not> isl (env c h2) \<and> env c h3 = Inl e \<longrightarrow> RedisConnect out db dial = (Inl e, h3)) \<and>
          (auth_ok \<and> \<not> isl (env c h2) \<and> \<not> isl (env c h3) \<longrightarrow>
             RedisConnect out db dial = (Inr (c\<lparr>hist := h3\<rparr>), h3))))"
  by (auto simp: RedisConnect_def conn_Do_def Let_def isl_def split: sum.splits)

theorem RedisConnect_steps_in_order_witness:
  "RedisConnect out_password 2 (Inr (new_conn 1 ok_env)) =
     (Inr ((new_conn 1 ok_env)\<lparr>hist := [ADo ''AUTH'' [S ''secret''], ADo ''PING'' [], ADo ''SELECT'' [I 2]]\<rparr>),
      [ADo ''AUTH'' [S ''secret''], ADo ''PING'' [], ADo ''SELECT'' [I 2]]) \<and>
   RedisConnect out_password 2 (Inr (new_conn 1 down_env)) = (Inl (Error ''EOF''), [ADo ''AUTH'' [S ''secret'']]) \<and>
   RedisConnect out_zero 2 (Inr (new_conn 1 down_env)) = (Inl (Error ''EOF''), [ADo ''PING'' []])"
  using RedisConnect_steps_in_order[of "Inr (new_conn 1 ok_env)" out_password 2]
        RedisConnect_steps_in_order[of "Inr (new_conn 1 down_env)" out_password 2]
        RedisConnect_steps_in_order[of "Inr (new_conn 1 down_env)" out_zero 2]
  by (simp add: Let_def out_password_def out_zero_def new_conn_def ok_env_def down_env_def)

text \<open>
  C5. For every sequence of outcomes of the connect attempts: while the attempts fail
  the loop does not return; if attempt \<open>k\<close> is the first to succeed, the loop returns
  at attempt \<open>k\<close>, having slept \<open>ReconnectInterval\<close> after each of the \<open>k\<close> failures, and
  the output then holds the new connection and \<open>connected = True\<close>.
\<close>

theorem Reconnect_retries_until_first_success:
  "((\<forall>j. isl (fst (RedisConnect out (Db out) (dials j)))) \<longrightarrow> Reconnect out dials 0 [] = None) \<and>
   (\<forall>k c. (\<forall>j<k. isl (fst (RedisConnect out (Db out) (dials j)))) \<and>
           fst (RedisConnect out (Db out) (dials k)) = Inr c \<longrightarrow>
       Reconnect out dials 0 [] =
         Some (out\<lparr>Conn := Some c, connected := True\<rparr>, k, failed_attempts out dials k))"
proof (intro conjI impI allI)
  assume "\<forall>j. isl (fst (RedisConnect out (Db out) (dials j)))"
  then show "Reconnect out dials 0 [] = None"
    by (rule Reconnect_all_fail)
next
  fix k c
  assume "(\<forall>j<k. isl (fst (RedisConnect out (Db out) (dials j)))) \<and>
           fst (RedisConnect out (Db out) (dials k)) = Inr c"
  then show "Reconnect out dials 0 [] =
         Some (out\<lparr>Conn := Some c, connected := True\<rparr>, k, failed_attempts out dials k)"
    using Reconnect_first_success[of k out dials 0 c "[]"]
    by (simp add: failed_attempts_def)
qed

theorem Reconnect_retries_until_first_success_witness:
  "Reconnect out_configured dials_down 0 [] = None \<and>
   Reconnect out_configured dials_third 0 [] =
     Some (out_configured\<lparr>Conn := Some ((new_conn 2 ok_env)\<lparr>hist := [ADo ''PING'' [], ADo ''SELECT'' [I 0]]\<rparr>),
                          connected := True\<rparr>, 2,
           [ConnectFailed (Error ''connection refused''), Sleep 1000000000,
            ConnectFailed (Error ''connection refused''), Sleep 1000000000])"
proof -
  note p = out_configured_fields
  have d: "\<forall>j. isl (fst (RedisConnect out_configured (Db out_configured) (dials_down j)))"
    by (simp add: RedisConnect_def dials_down_def)
  have f: "\<forall>j<2. isl (fst (RedisConnect out_configured (Db out_configured) (dials_third j)))"
    by (simp add: RedisConnect_def dials_third_def)
  have s: "fst (RedisConnect out_configured (Db out_configured) (dials_third 2)) =
             Inr ((new_conn 2 ok_env)\<lparr>hist := [ADo ''PING'' [], ADo ''SELECT'' [I 0]]\<rparr>)"
    by (simp add: RedisConnect_def dials_third_def p conn_Do_eq new_conn_def ok_env_def)
  have u: "[0..<2] = [0, Suc 0]"
    by (simp add: upt_rec numeral_2_eq_2)
  have l: "failed_attempts out_configured dials_third 2 =
           [ConnectFailed (Error ''connection refused''), Sleep 1000000000,
            ConnectFailed (Error ''connection refused''), Sleep 1000000000]"
    by (simp add: failed_attempts_def u RedisConnect_def dials_third_def p)
  from Reconnect_retries_until_first_success[of out_configured dials_down] d
  have 1: "Reconnect out_configured dials_down 0 [] = None" by blast
  from Reconnect_retries_until_first_success[of out_configured dials_third] f s
  have 2: "Reconnect out_configured dials_third 0 [] =
     Some (out_configured\<lparr>Conn := Some ((new_conn 2 ok_env)\<lparr>hist := [ADo ''PING'' [], ADo ''SELECT'' [I 0]]\<rparr>),
                          connected := True\<rparr>, 2, failed_attempts out_configured dials_third 2)"
    by blast
  from 1 2 l show ?thesis by simp
qed

text \<open>
  C9, as the code has it. \<open>Connect\<close> has no guard: every attempt that succeeds assigns its
  connection to \<open>Conn\<close> and sets \<open>connected\<close>, whether or not the output is healthy
  already, and every attempt that fails assigns nil to \<open>Conn\<close>. Let two runs of the
  reconnect loop work on one output, their writes interleaved by any schedule, with no
  other goroutine writing. A step of a run is the step of \<open>Connect\<close>, split at its two
  writes. After any schedule \<open>Conn\<close> holds what was assigned last. Once both runs have
  returned, each has assigned the connection of its first successful attempt,
  \<open>connected\<close> is true, and \<open>Conn\<close> holds the one of the two connections that was
  assigned last; this need not be the connection of the run that returned last.
\<close>

theorem Connect_replaces_unconditionally:
  "(\<forall>c. fst (RedisConnect out (Db out) dial) = Inr c \<longrightarrow>
        Connect out dial = (None, out\<lparr>Conn := Some c, connected := True\<rparr>)) \<and>
   (\<forall>e. fst (RedisConnect out (Db out) dial) = Inl e \<longrightarrow> Connect out dial = (Some e, out\<lparr>Conn := None\<rparr>)) \<and>
   (\<forall>i c. fst (RedisConnect out (Db out) (dials b i)) = Inr c \<longrightarrow>
        thread_step out (dials b) (Attempt i) = (out\<lparr>Conn := Some c\<rparr>, Mark, Some (Some c)) \<and>
        thread_step (out\<lparr>Conn := Some c\<rparr>) (dials b) Mark = (snd (Connect out (dials b i)), Returned, None)) \<and>
   (\<forall>i e. fst (RedisConnect out (Db out) (dials b i)) = Inl e \<longrightarrow>
        thread_step out (dials b) (Attempt i) = (snd (Connect out (dials b i)), Attempt (Suc i), Some None)) \<and>
   (writes (sys_run dials out sch) \<noteq> [] \<longrightarrow>
      Conn (shared (sys_run dials out sch)) = snd (last (writes (sys_run dials out sch)))) \<and>
   (\<forall>k1 c1 k2 c2.
      first_success out (dials Loop1) k1 c1 \<and> first_success out (dials Loop2) k2 c2 \<and>
      threads (sys_run dials out sch) Loop1 = Returned \<and> threads (sys_run dials out sch) Loop2 = Returned \<longrightarrow>
      connected (shared (sys_run dials out sch)) \<and>
      (Loop1, Some c1) \<in> set (writes (sys_run dials out sch)) \<and>
      (Loop2, Some c2) \<in> set (writes (sys_run dials out sch)) \<and>
      Conn (shared (sys_run dials out sch)) = snd (last (writes (sys_run dials out sch))) \<and>
      (Conn (shared (sys_run dials out sch)) = Some c1 \<or> Conn (shared (sys_run dials out sch)) = Some c2))"
proof (intro conjI allI impI)
  fix c assume "fst (RedisConnect out (Db out) dial) = Inr c"
  then show "Connect out dial = (None, out\<lparr>Conn := Some c, connected := True\<rparr>)"
    by (simp add: Connect_def)
next
  fix e assume "fst (RedisConnect out (Db out) dial) = Inl e"
  then show "Connect out dial = (Some e, out\<lparr>Conn := None\<rparr>)"
    by (simp add: Connect_def)
next
  fix i c assume a: "fst (RedisConnect out (Db out) (dials b i)) = Inr c"
  show "thread_step out (dials b) (Attempt i) = (out\<lparr>Conn := Some c\<rparr>, Mark, Some (Some c))"
    using thread_step_Connect[of out "dials b" i c] a by simp
  show "thread_step (out\<lparr>Conn := Some c\<rparr>) (dials b) Mark = (snd (Connect out (dials b i)), Returned, None)"
    using thread_step_Connect[of out "dials b" i c] a by simp
next
  fix i e assume "fst (RedisConnect out (Db out) (dials b i)) = Inl e"
  then show "thread_step out (dials b) (Attempt i) = (snd (Connect out (dials b i)), Attempt (Suc i), Some None)"
    using thread_step_Connect_fail[of out "dials b" i e] by simp
next
  assume "writes (sys_run dials out sch) \<noteq> []"
  then show "Conn (shared (sys_run dials out sch)) = snd (last (writes (sys_run dials out sch)))"
    using sys_inv_run[of out dials sch] by (simp add: sys_inv_def)
next
  fix k1 c1 k2 c2
  assume a: "first_success out (dials Loop1) k1 c1 \<and> first_success out (dials Loop2) k2 c2 \<and>
      threads (sys_run dials out sch) Loop1 = Returned \<and> threads (sys_run dials out sch) Loop2 = Returned"
  note B = both_returned[of out dials k1 c1 k2 c2 sch]
  show "connected (shared (sys_run dials out sch))" using B a by blast
  show "(Loop1, Some c1) \<in> set (writes (sys_run dials out sch))" using B a by blast
  show "(Loop2, Some c2) \<in> set (writes (sys_run dials out sch))" using B a by blast
  show "Conn (shared (sys_run dials out sch)) = snd (last (writes (sys_run dials out sch)))" using B a by blast
  show "Conn (shared (sys_run dials out sch)) = Some c1 \<or> Conn (shared (sys_run dials out sch)) = Some c2"
    using B a by blast
qed

text \<open>
  A second attempt on a healed output replaces the connection. Schedule 1, 2, 2, 1 of
  two runs whose dials succeed: the first run returns last and the output keeps the
  connection of the second. With the first dials of the first run failing: after the
  second run has returned, an attempt of the first fails and leaves a connected output
  with a nil connection; when both have returned the output holds the connection that
  was assigned last.
\<close>

theorem Connect_replaces_unconditionally_witness:
  "(connected out_after_first \<and>
    Connect out_after_first (dials_up 2 0) =
      (None, out_configured\<lparr>Conn := Some ((new_conn 2 ok_env)\<lparr>hist := [ADo ''PING'' [], ADo ''SELECT'' [I 0]]\<rparr>),
                             connected := True\<rparr>)) \<and>
   (threads (sys_run dials_two out_configured [Loop1, Loop2, Loop2, Loop1]) Loop1 = Returned \<and>
    threads (sys_run dials_two out_configured [Loop1, Loop2, Loop2, Loop1]) Loop2 = Returned \<and>
    map fst (writes (sys_run dials_two out_configured [Loop1, Loop2, Loop2, Loop1])) = [Loop1, Loop2] \<and>
    connected (shared (sys_run dials_two out_configured [Loop1, Loop2, Loop2, Loop1])) \<and>
    map_option cid (Conn (shared (sys_run dials_two out_configured [Loop1, Loop2, Loop2, Loop1]))) = Some 2) \<and>
   (Connect out_configured (dials_late Loop1 0) =
      (Some (Error ''connection refused''), out_configured\<lparr>Conn := None\<rparr>) \<and>
    thread_step out_configured (dials_late Loop1) (Attempt 0) =
      (out_configured\<lparr>Conn := None\<rparr>, Attempt 1, Some None) \<and>
    connected (shared (sys_run dials_late out_configured [Loop2, Loop2, Loop1])) \<and>
    Conn (shared (sys_run dials_late out_configured [Loop2, Loop2, Loop1])) = None) \<and>
   (threads (sys_run dials_late out_configured [Loop1, Loop2, Loop1, Loop2, Loop1, Loop1]) Loop1 = Returned \<and>
    threads (sys_run dials_late out_configured [Loop1, Loop2, Loop1, Loop2, Loop1, Loop1]) Loop2 = Returned \<and>
    map fst (writes (sys_run dials_late out_configured [Loop1, Loop2, Loop1, Loop2, Loop1, Loop1])) =
      [Loop1, Loop2, Loop1, Loop1] \<and>
    connected (shared (sys_run dials_late out_configured [Loop1, Loop2, Loop1, Loop2, Loop1, Loop1])) \<and>
    map_option cid (Conn (shared (sys_run dials_late out_configured [Loop1, Loop2, Loop1, Loop2, Loop1, Loop1]))) =
      Some 2)"
proof (intro conjI)
  have r: "fst (RedisConnect out_after_first (Db out_after_first) (dials_up 2 0)) =
          Inr ((new_conn 2 ok_env)\<lparr>hist := [ADo ''PING'' [], ADo ''SELECT'' [I 0]]\<rparr>)"
    using dials_up_connect[of 2 0] by (simp add: out_after_first_eq)
  note A = Connect_replaces_unconditionally[of out_after_first "dials_up 2 0" dials_two Loop1 "[]",
      THEN conjunct1, rule_format, OF r]
  show "connected out_after_first"
    by (simp add: out_after_first_eq)
  show "Connect out_after_first (dials_up 2 0) =
      (None, out_configured\<lparr>Conn := Some ((new_conn 2 ok_env)\<lparr>hist := [ADo ''PING'' [], ADo ''SELECT'' [I 0]]\<rparr>),
                             connected := True\<rparr>)"
    using A by (simp add: out_after_first_eq)
next
  let ?s = "sys_run dials_two out_configured [Loop1, Loop2, Loop2, Loop1]"
  let ?c1 = "(new_conn 1 ok_env)\<lparr>hist := [ADo ''PING'' [], ADo ''SELECT'' [I 0]]\<rparr>"
  let ?c2 = "(new_conn 2 ok_env)\<lparr>hist := [ADo ''PING'' [], ADo ''SELECT'' [I 0]]\<rparr>"
  have h: "first_success out_configured (dials_two Loop1) 0 ?c1 \<and>
           first_success out_configured (dials_two Loop2) 0 ?c2 \<and>
           threads ?s Loop1 = Returned \<and> threads ?s Loop2 = Returned"
    using dials_two_first by (simp add: run_overlap)
  note B = Connect_replaces_unconditionally[of out_configured "dials_up 1 0" dials_two Loop1
      "[Loop1, Loop2, Loop2, Loop1]", THEN conjunct2, THEN conjunct2, THEN conjunct2, THEN conjunct2,
      THEN conjunct2, rule_format, OF h]
  show "threads ?s Loop1 = Returned" "threads ?s Loop2 = Returned"
    using h by simp_all
  show "map fst (writes ?s) = [Loop1, Loop2]"
    by (simp add: run_overlap)
  show "connected (shared ?s)"
    using B by simp
  have "Conn (shared ?s) = snd (last (writes ?s))"
    using B by simp
  then show "map_option cid (Conn (shared ?s)) = Some 2"
    by (simp add: run_overlap new_conn_def)
next
  let ?t = "sys_run dials_late out_configured [Loop2, Loop2, Loop1]"
  have f0: "fst (RedisConnect out_configured (Db out_configured) (dials_late Loop1 0)) =
              Inl (Error ''connection refused'')"
    by (simp add: dials_late_connect del: dials_late.simps)
  note F = Connect_replaces_unconditionally[of out_configured "dials_up 1 0" dials_late Loop1
      "[Loop2, Loop2, Loop1]", THEN conjunct2, THEN conjunct2, THEN conjunct2, THEN conjunct1,
      rule_format, OF f0]
  note N = Connect_replaces_unconditionally[of out_configured "dials_late Loop1 0" dials_late Loop1
      "[Loop2, Loop2, Loop1]", THEN conjunct2, THEN conjunct1, rule_format, OF f0]
  show "Connect out_configured (dials_late Loop1 0) =
      (Some (Error ''connection refused''), out_configured\<lparr>Conn := None\<rparr>)"
    using N .
  show "thread_step out_configured (dials_late Loop1) (Attempt 0) =
      (out_configured\<lparr>Conn := None\<rparr>, Attempt 1, Some None)"
    using F f0 by (simp add: Connect_def del: dials_late.simps)
  have n: "writes ?t \<noteq> []"
    by (simp add: run_nil)
  note W = Connect_replaces_unconditionally[of out_configured "dials_up 1 0" dials_late Loop1
      "[Loop2, Loop2, Loop1]", THEN conjunct2, THEN conjunct2, THEN conjunct2, THEN conjunct2,
      THEN conjunct1, rule_format, OF n]
  show "connected (shared ?t)"
    by (simp add: run_nil)
  show "Conn (shared ?t) = None"
    using W by (simp add: run_nil)
next
  let ?u = "sys_run dials_late out_configured [Loop1, Loop2, Loop1, Loop2, Loop1, Loop1]"
  let ?c1 = "(new_conn 2 ok_env)\<lparr>hist := [ADo ''PING'' [], ADo ''SELECT'' [I 0]]\<rparr>"
  let ?c2 = "(new_conn 5 ok_env)\<lparr>hist := [ADo ''PING'' [], ADo ''SELECT'' [I 0]]\<rparr>"
  have h: "first_success out_configured (dials_late Loop1) 2 ?c1 \<and>
           first_success out_configured (dials_late Loop2) 0 ?c2 \<and>
           threads ?u Loop1 = Returned \<and> threads ?u Loop2 = Returned"
    using dials_late_first by (simp add: run_late)
  note L = Connect_replaces_unconditionally[of out_configured "dials_up 1 0" dials_late Loop1
      "[Loop1, Loop2, Loop1, Loop2, Loop1, Loop1]", THEN conjunct2, THEN conjunct2, THEN conjunct2,
      THEN conjunct2, THEN conjunct2, rule_format, OF h]
  show "threads ?u Loop1 = Returned" "threads ?u Loop2 = Returned"
    using h by simp_all
  show "map fst (writes ?u) = [Loop1, Loop2, Loop1, Loop1]"
    by (simp add: run_late)
  show "connected (shared ?u)"
    using L by simp
  have "Conn (shared ?u) = snd (last (writes ?u))"
    using L by simp
  then show "map_option cid (Conn (shared ?u)) = Some 2"
    by (simp add: run_late new_conn_def)
qed

text \<open>
  C9 as stated fails: the first loop heals the output with connection 1; the attempt
  of the second loop, finishing afterwards, replaces the healthy connection by
  connection 2.
\<close>

theorem second_reconnect_replaces_healthy_handle:
  "connected out_after_first \<and> map_option cid (Conn out_after_first) = Some 1 \<and>
   connected out_after_second \<and> map_option cid (Conn out_after_second) = Some 2"
  by (simp add: out_after_second_def out_after_first_eq Reconnect_up new_conn_def)

section \<open>Init\<close>

text \<open>
  C8, as the code has it. \<open>Init\<close> returns an error exactly when the configured data type
  is none of unset, \<^verbatim>\<open>list\<close> and \<^verbatim>\<open>channel\<close>; it does so before any connection attempt and
  without starting the worker, and whatever the flush interval is. For every other
  configuration \<open>Init\<close> never returns an error: it does not return while the connection
  attempts fail, and at the first attempt that succeeds it returns nil, with the
  worker started. The fields not configured get their defaults.
\<close>

theorem Init_fails_iff_bad_data_type:
  "(let o1 = snd (Init_config out0 config te)
    in (Config.DataType config \<notin> {[], ''list'', ''channel''} \<longrightarrow>
          Init out0 config te dials = Some (Some (Error ''Bad Redis data type''), o1, None)) \<and>
       (Config.DataType config \<in> {[], ''list'', ''channel''} \<longrightarrow>
          (\<forall>r. Init out0 config te dials = Some r \<longrightarrow> fst r = None) \<and>
          ((\<forall>j. isl (fst (RedisConnect o1 (Db o1) (dials j)))) \<longrightarrow> Init out0 config te dials = None) \<and>
          (\<forall>k c. (\<forall>j<k. isl (fst (RedisConnect o1 (Db o1) (dials j)))) \<and>
                  fst (RedisConnect o1 (Db o1) (dials k)) = Inr c \<longrightarrow>
              Init out0 config te dials =
                Some (None, o1\<lparr>Conn := Some c, connected := True\<rparr>,
                      Some (SendMessagesGoroutine_start (o1\<lparr>Conn := Some c, connected := True\<rparr>))))) \<and>
       DbTopology o1 = (if Config.DbTopology config \<noteq> 0 then Config.DbTopology config else 1) \<and>
       Timeout o1 = duration_mul (if Config.Timeout config \<noteq> 0 then Config.Timeout config else 5) Second \<and>
       Index o1 = (if Config.Index config \<noteq> [] then Config.Index config else ''packetbeat'') \<and>
       ReconnectInterval o1 =
         duration_mul (if Config.ReconnectInterval config \<noteq> 0 then Config.ReconnectInterval config else 1) Second \<and>
       TopologyExpire o1 = duration_mul (if te \<noteq> 0 then te else 15) Second \<and>
       FlushInterval o1 =
         (case Config.FlushInterval config of
            None \<Rightarrow> 1000 * Millisecond
          | Some n \<Rightarrow> if n < 0 then 1000 * Millisecond else duration_mul n Millisecond))"
proof -
  let ?o = "snd (Init_config out0 config te)"
  note bad = Init_invalid[of config out0 te dials]
  note good = Init_valid[of config out0 te dials]
  have g1: "fst r = None"
    if "Config.DataType config \<in> {[], ''list'', ''channel''}" "Init out0 config te dials = Some r" for r
    using that(2) unfolding good[OF that(1)] by (auto split: option.splits)
  have g2: "Init out0 config te dials = None"
    if "Config.DataType config \<in> {[], ''list'', ''channel''}" "\<forall>j. isl (fst (RedisConnect ?o (Db ?o) (dials j)))"
    unfolding good[OF that(1)] using Reconnect_all_fail[OF that(2)] by simp
  have g3: "Init out0 config te dials =
                Some (None, ?o\<lparr>Conn := Some c, connected := True\<rparr>,
                      Some (SendMessagesGoroutine_start (?o\<lparr>Conn := Some c, connected := True\<rparr>)))"
    if "Config.DataType config \<in> {[], ''list'', ''channel''}"
      "(\<forall>j<k. isl (fst (RedisConnect ?o (Db ?o) (dials j)))) \<and> fst (RedisConnect ?o (Db ?o) (dials k)) = Inr c" for k c
    unfolding good[OF that(1)] using Reconnect_first_success[of k ?o dials 0 c "[]"] that(2) by simp
  show ?thesis
    unfolding Let_def
    apply (intro conjI impI allI)
    subgoal by (rule bad)
    subgoal for r by (rule g1)
    subgoal by (rule g2)
    subgoal for k c by (rule g3)
    subgoal by (rule ic_DbTopology)
    subgoal by (rule ic_Timeout)
    subgoal by (rule ic_Index)
    subgoal by (rule ic_ReconnectInterval)
    subgoal by (rule ic_TopologyExpire)
    subgoal by (rule ic_FlushInterval)
    done
qed

theorem Init_fails_iff_bad_data_type_witness:
  "Init out_zero config_stream 0 dials_third =
     Some (Some (Error ''Bad Redis data type''), snd (Init_config out_zero config_stream 0), None) \<and>
   Init out_zero config_localhost 0 dials_third =
     Some (None,
           out_configured\<lparr>Conn := Some ((new_conn 2 ok_env)\<lparr>hist := [ADo ''PING'' [], ADo ''SELECT'' [I 0]]\<rparr>),
                          connected := True\<rparr>,
           Some (Inr \<lparr>wout = out_configured\<lparr>Conn := Some ((new_conn 2 ok_env)\<lparr>hist := [ADo ''PING'' [], ADo ''SELECT'' [I 0]]\<rparr>),
                                             connected := True\<rparr>,
                      pending = 0, flushTicker = Some 1000000000, reconnects = 0\<rparr>)) \<and>
   Index out_configured = ''packetbeat'' \<and> DbTopology out_configured = 1"
proof -
  note T1 = Init_fails_iff_bad_data_type[of out_zero config_stream 0 dials_third, unfolded Let_def]
  note T2 = Init_fails_iff_bad_data_type[of out_zero config_localhost 0 dials_third, unfolded Let_def,
      folded out_configured_def]
  have b: "Config.DataType config_stream \<notin> {[], ''list'', ''channel''}"
    by (simp add: config_stream_def)
  have g: "Config.DataType config_localhost \<in> {[], ''list'', ''channel''}"
    by (simp add: config_localhost_def)
  have f: "\<forall>j<2. isl (fst (RedisConnect out_configured (Db out_configured) (dials_third j)))"
    by (simp add: RedisConnect_def dials_third_def)
  have s: "fst (RedisConnect out_configured (Db out_configured) (dials_third 2)) =
             Inr ((new_conn 2 ok_env)\<lparr>hist := [ADo ''PING'' [], ADo ''SELECT'' [I 0]]\<rparr>)"
    by (simp add: RedisConnect_def dials_third_def out_configured_fields conn_Do_eq new_conn_def ok_env_def)
  from T1 b have 1: "Init out_zero config_stream 0 dials_third =
     Some (Some (Error ''Bad Redis data type''), snd (Init_config out_zero config_stream 0), None)"
    by blast
  from T2 g f s have 2: "Init out_zero config_localhost 0 dials_third =
     Some (None,
           out_configured\<lparr>Conn := Some ((new_conn 2 ok_env)\<lparr>hist := [ADo ''PING'' [], ADo ''SELECT'' [I 0]]\<rparr>),
                          connected := True\<rparr>,
           Some (SendMessagesGoroutine_start
                   (out_configured\<lparr>Conn := Some ((new_conn 2 ok_env)\<lparr>hist := [ADo ''PING'' [], ADo ''SELECT'' [I 0]]\<rparr>),
                                  connected := True\<rparr>)))"
    by blast
  from T2 have 3: "Index out_configured = ''packetbeat'' \<and> DbTopology out_configured = 1"
    by (simp add: config_localhost_def)
  from 1 2 3 show ?thesis
    by (simp add: SendMessagesGoroutine_start_def out_configured_mode)
qed

text \<open>
  C8 as stated fails: with a valid configuration and a server that refuses every
  connection, \<open>Init\<close> does not return; it neither fails nor succeeds. And no flush
  interval is rejected: with the interval 0, for which no ticker can be made, \<open>Init\<close>
  returns nil, and the worker it has started panics.
\<close>

theorem Init_blocks_while_server_is_down:
  "Config.DataType config_localhost = [] \<and> Config.FlushInterval config_localhost = None \<and>
   Init out_zero config_localhost 0 dials_down = None \<and>
   Config.FlushInterval config_flush0 = Some 0 \<and>
   Init out_zero config_flush0 0 (dials_up 1) \<noteq> None \<and>
   fst (the (Init out_zero config_flush0 0 (dials_up 1))) = None \<and>
   snd (snd (the (Init out_zero config_flush0 0 (dials_up 1)))) =
     Some (Inl (Panic ''non-positive interval for NewTicker''))"
proof -
  have d: "\<forall>j. isl (fst (RedisConnect out_configured (Db out_configured) (dials_down j)))"
    by (simp add: RedisConnect_def dials_down_def)
  have v: "Config.DataType config_localhost \<in> {[], ''list'', ''channel''}"
    by (simp add: config_localhost_def)
  have 1: "Init out_zero config_localhost 0 dials_down = None"
    unfolding Init_valid[OF v] out_configured_def[symmetric] Reconnect_all_fail[OF d]
    by simp
  let ?o = "snd (Init_config out_zero config_flush0 0)"
  let ?c = "(new_conn 1 ok_env)\<lparr>hist := [ADo ''PING'' [], ADo ''SELECT'' [I 0]]\<rparr>"
  have f: "Password ?o = [] \<and> Db ?o = 0 \<and> FlushInterval ?o = 0 \<and> \<not> flush_immediatelly ?o"
    by (simp add: config_flush0_def Init_config_def Let_def out_zero_def duration_mul_def wrap64_def)
  have c: "fst (RedisConnect ?o (Db ?o) (dials_up 1 (0 + 0))) = Inr ?c"
    by (simp add: RedisConnect_def f dials_up_def conn_Do_eq new_conn_def ok_env_def)
  have r: "Reconnect ?o (dials_up 1) 0 [] = Some (?o\<lparr>Conn := Some ?c, connected := True\<rparr>, 0, [])"
    using Reconnect_first_success[where k = 0 and i = 0 and log = "[]" and out = ?o
        and dials = "dials_up 1", OF _ c] by simp
  have v0: "Config.DataType config_flush0 \<in> {[], ''list'', ''channel''}"
    by (simp add: config_flush0_def)
  have 2: "Init out_zero config_flush0 0 (dials_up 1) =
             Some (None, ?o\<lparr>Conn := Some ?c, connected := True\<rparr>,
                   Some (Inl (Panic ''non-positive interval for NewTicker'')))"
    unfolding Init_valid[OF v0] r
    by (simp add: SendMessagesGoroutine_start_def f)
  have 3: "Config.DataType config_localhost = [] \<and> Config.FlushInterval config_localhost = None \<and>
           Config.FlushInterval config_flush0 = Some 0"
    by (simp add: config_localhost_def config_flush0_def)
  have 4: "Init out_zero config_flush0 0 (dials_up 1) \<noteq> None \<and>
           fst (the (Init out_zero config_flush0 0 (dials_up 1))) = None \<and>
           snd (snd (the (Init out_zero config_flush0 0 (dials_up 1)))) =
             Some (Inl (Panic ''non-positive interval for NewTicker''))"
    unfolding 2 by simp
  from 1 3 4 show ?thesis by blast
qed

section \<open>The delivery worker\<close>

text \<open>
  C4. A message that the worker dequeues while \<open>connected\<close> is false is discarded, in
  immediate and in batched mode alike: the step leaves the whole worker state as it
  was, so nothing is sent on the connection and nothing is kept for later.
\<close>

theorem unhealthy_message_discarded:
  "\<not> connected (wout w) \<Longrightarrow>
   SendMessages_step w (Msg m) = Inr w \<and> SendMessages_run w (map Msg ms) = Inr w"
  by (induction ms) (simp_all add: SendMessages_step_def on_queueMsg_def)

theorem unhealthy_message_discarded_witness:
  "\<not> connected (wout worker_down) \<and> SendMessages_step worker_down (Msg msg1) = Inr worker_down \<and>
   SendMessages_run worker_down (map Msg [msg1, msg2]) = Inr worker_down"
proof -
  have d: "\<not> connected (wout worker_down)"
    by (simp add: worker_down_def out_zero_def)
  from unhealthy_message_discarded[OF d, of msg1 "[msg1, msg2]"] d show ?thesis by blast
qed

text \<open>
  C2, as the code has it. In batched mode a message dequeued on a connected output
  whose handle is not nil is sent without waiting and the counter grows by one
  (wrapping around as a 64-bit \<^verbatim>\<open>int\<close> does; within the range it is the successor),
  whether or not the send reports an error; if it does, the output is marked not
  connected and one reconnect is started. A tick with a counter that is not positive
  does nothing. A tick with a positive counter, on a handle that is not nil, flushes
  and reads one reply, and then sets the counter to zero whether the flush succeeded or
  failed; if it failed, the output is marked not connected and one reconnect is
  started, otherwise neither changes. With a nil handle the send and the flush panic.
\<close>

theorem pending_counter_in_batched_mode:
  "(connected (wout w) \<and> \<not> flush_immediatelly (wout w) \<longrightarrow>
      (Conn (wout w) = None \<longrightarrow> SendMessages_step w (Msg m) = Inl (Panic ''nil pointer dereference'')) \<and>
      (\<forall>c. Conn (wout w) = Some c \<longrightarrow>
         (\<exists>w'. SendMessages_step w (Msg m) = Inr w' \<and> pending w' = wrap64 (pending w + 1) \<and>
               (- (2 ^ 63) \<le> pending w \<and> pending w + 1 < 2 ^ 63 \<longrightarrow> pending w' = pending w + 1) \<and>
               map_option hist (Conn (wout w')) = Some (hist c @ [send_action (wout w) m]) \<and>
               (connected (wout w') \<longleftrightarrow> \<not> isl (env c (hist c @ [send_action (wout w) m]))) \<and>
               reconnects w' =
                 (if isl (env c (hist c @ [send_action (wout w) m])) then Suc (reconnects w)
                  else reconnects w)))) \<and>
   (pending w \<le> 0 \<longrightarrow> SendMessages_step w Tick = Inr w) \<and>
   (0 < pending w \<and> flushTicker w \<noteq> None \<longrightarrow>
      (Conn (wout w) = None \<longrightarrow> SendMessages_step w Tick = Inl (Panic ''nil pointer dereference'')) \<and>
      (\<forall>c. Conn (wout w) = Some c \<longrightarrow>
         (\<exists>w'. SendMessages_step w Tick = Inr w' \<and> pending w' = 0 \<and>
               map_option hist (Conn (wout w')) = Some (hist c @ [AFlush, AReceive]) \<and>
               (connected (wout w') \<longleftrightarrow> connected (wout w) \<and> \<not> isl (env c (hist c @ [AFlush, AReceive]))) \<and>
               reconnects w' =
                 (if isl (env c (hist c @ [AFlush, AReceive])) then Suc (reconnects w)
                  else reconnects w))))"
proof (intro conjI impI allI)
  assume "connected (wout w) \<and> \<not> flush_immediatelly (wout w)" "Conn (wout w) = None"
  then show "SendMessages_step w (Msg m) = Inl (Panic ''nil pointer dereference'')"
    by (simp add: SendMessages_step_def on_queueMsg_def)
next
  fix c
  assume a: "connected (wout w) \<and> \<not> flush_immediatelly (wout w)" "Conn (wout w) = Some c"
  have s: "SendMessages_step w (Msg m) =
     Inr (on_err (w\<lparr>wout := (wout w)\<lparr>Conn := Some (c\<lparr>hist := hist c @ [send_action (wout w) m]\<rparr>)\<rparr>,
                    pending := wrap64 (pending w + 1)\<rparr>)
            (case env c (hist c @ [send_action (wout w) m]) of Inl err \<Rightarrow> Some err | Inr _ \<Rightarrow> None))"
    using a by (simp add: step_Msg_batched)
  show "\<exists>w'. SendMessages_step w (Msg m) = Inr w' \<and> pending w' = wrap64 (pending w + 1) \<and>
               (- (2 ^ 63) \<le> pending w \<and> pending w + 1 < 2 ^ 63 \<longrightarrow> pending w' = pending w + 1) \<and>
               map_option hist (Conn (wout w')) = Some (hist c @ [send_action (wout w) m]) \<and>
               (connected (wout w') \<longleftrightarrow> \<not> isl (env c (hist c @ [send_action (wout w) m]))) \<and>
               reconnects w' =
                 (if isl (env c (hist c @ [send_action (wout w) m])) then Suc (reconnects w)
                  else reconnects w)"
    unfolding s using a(1)
    by (cases "env c (hist c @ [send_action (wout w) m])") (simp_all add: on_err_def wrap64_id)
next
  assume "pending w \<le> 0"
  then show "SendMessages_step w Tick = Inr w"
    by (rule step_Tick_idle)
next
  assume "0 < pending w \<and> flushTicker w \<noteq> None" "Conn (wout w) = None"
  then show "SendMessages_step w Tick = Inl (Panic ''nil pointer dereference'')"
    by (auto simp: SendMessages_step_def on_flush_def)
next
  fix c
  assume a: "0 < pending w \<and> flushTicker w \<noteq> None" "Conn (wout w) = Some c"
  have s: "SendMessages_step w Tick =
     Inr ((on_err (w\<lparr>wout := (wout w)\<lparr>Conn := Some (c\<lparr>hist := hist c @ [AFlush, AReceive]\<rparr>)\<rparr>\<rparr>)
             (case env c (hist c @ [AFlush, AReceive]) of Inl err \<Rightarrow> Some err | Inr _ \<Rightarrow> None))
          \<lparr>pending := 0\<rparr>)"
    using a by (simp add: step_Tick_flush)
  show "\<exists>w'. SendMessages_step w Tick = Inr w' \<and> pending w' = 0 \<and>
               map_option hist (Conn (wout w')) = Some (hist c @ [AFlush, AReceive]) \<and>
               (connected (wout w') \<longleftrightarrow> connected (wout w) \<and> \<not> isl (env c (hist c @ [AFlush, AReceive]))) \<and>
               reconnects w' =
                 (if isl (env c (hist c @ [AFlush, AReceive])) then Suc (reconnects w)
                  else reconnects w)"
    unfolding s by (cases "env c (hist c @ [AFlush, AReceive])") (simp_all add: on_err_def)
qed

text \<open>
  On a server that accepts everything a send makes the counter 1 and starts no
  reconnect; on a server that is down the send fails, the counter is 1 all the same,
  the output is no longer connected and one reconnect has been started. A tick at
  counter 0 changes nothing. A tick at counter 3 whose flush fails: counter 0, not
  connected, one reconnect started; whose flush succeeds: counter 0, connected, no
  reconnect. At the largest \<^verbatim>\<open>int\<close> the counter wraps to the smallest. On a nil handle
  the send and the flush panic.
\<close>

theorem pending_counter_in_batched_mode_witness:
  "(pending (projr (SendMessages_step (worker_batched ok_env) (Msg msg1))) = 1 \<and>
    connected (wout (projr (SendMessages_step (worker_batched ok_env) (Msg msg1)))) \<and>
    reconnects (projr (SendMessages_step (worker_batched ok_env) (Msg msg1))) = 0) \<and>
   (pending (projr (SendMessages_step (worker_batched down_env) (Msg msg1))) = 1 \<and>
    \<not> connected (wout (projr (SendMessages_step (worker_batched down_env) (Msg msg1)))) \<and>
    reconnects (projr (SendMessages_step (worker_batched down_env) (Msg msg1))) = 1) \<and>
   SendMessages_step (worker_batched ok_env) Tick = Inr (worker_batched ok_env) \<and>
   (pending (projr (SendMessages_step ((worker_batched receive_fails_env)\<lparr>pending := 3\<rparr>) Tick)) = 0 \<and>
    \<not> connected (wout (projr (SendMessages_step ((worker_batched receive_fails_env)\<lparr>pending := 3\<rparr>) Tick))) \<and>
    reconnects (projr (SendMessages_step ((worker_batched receive_fails_env)\<lparr>pending := 3\<rparr>) Tick)) = 1) \<and>
   (pending (projr (SendMessages_step ((worker_batched ok_env)\<lparr>pending := 3\<rparr>) Tick)) = 0 \<and>
    connected (wout (projr (SendMessages_step ((worker_batched ok_env)\<lparr>pending := 3\<rparr>) Tick))) \<and>
    reconnects (projr (SendMessages_step ((worker_batched ok_env)\<lparr>pending := 3\<rparr>) Tick)) = 0) \<and>
   pending (projr (SendMessages_step ((worker_batched ok_env)\<lparr>pending := 9223372036854775807\<rparr>) (Msg msg1))) =
     - 9223372036854775808 \<and>
   SendMessages_step worker_nil (Msg msg1) = Inl (Panic ''nil pointer dereference'') \<and>
   SendMessages_step worker_nil Tick = Inl (Panic ''nil pointer dereference'')"
proof (intro conjI)
  note ok = pending_counter_in_batched_mode[of "worker_batched ok_env" msg1]
  note dn = pending_counter_in_batched_mode[of "worker_batched down_env" msg1]
  note rf = pending_counter_in_batched_mode[of "(worker_batched receive_fails_env)\<lparr>pending := 3\<rparr>" msg1]
  note o3 = pending_counter_in_batched_mode[of "(worker_batched ok_env)\<lparr>pending := 3\<rparr>" msg1]
  note mx = pending_counter_in_batched_mode[of "(worker_batched ok_env)\<lparr>pending := 9223372036854775807\<rparr>" msg1]
  note nl = pending_counter_in_batched_mode[of worker_nil msg1]
  show "pending (projr (SendMessages_step (worker_batched ok_env) (Msg msg1))) = 1"
    "connected (wout (projr (SendMessages_step (worker_batched ok_env) (Msg msg1))))"
    "reconnects (projr (SendMessages_step (worker_batched ok_env) (Msg msg1))) = 0"
    using ok by (auto simp: worker_batched_def out_configured_mode new_conn_def ok_env_def)
  show "pending (projr (SendMessages_step (worker_batched down_env) (Msg msg1))) = 1"
    "\<not> connected (wout (projr (SendMessages_step (worker_batched down_env) (Msg msg1))))"
    "reconnects (projr (SendMessages_step (worker_batched down_env) (Msg msg1))) = 1"
    using dn by (auto simp: worker_batched_def out_configured_mode new_conn_def down_env_def)
  show "SendMessages_step (worker_batched ok_env) Tick = Inr (worker_batched ok_env)"
    using ok by (auto simp: worker_batched_def)
  show "pending (projr (SendMessages_step ((worker_batched receive_fails_env)\<lparr>pending := 3\<rparr>) Tick)) = 0"
    "\<not> connected (wout (projr (SendMessages_step ((worker_batched receive_fails_env)\<lparr>pending := 3\<rparr>) Tick)))"
    "reconnects (projr (SendMessages_step ((worker_batched receive_fails_env)\<lparr>pending := 3\<rparr>) Tick)) = 1"
    using rf by (auto simp: worker_batched_def new_conn_def receive_fails_env_def)
  show "pending (projr (SendMessages_step ((worker_batched ok_env)\<lparr>pending := 3\<rparr>) Tick)) = 0"
    "connected (wout (projr (SendMessages_step ((worker_batched ok_env)\<lparr>pending := 3\<rparr>) Tick)))"
    "reconnects (projr (SendMessages_step ((worker_batched ok_env)\<lparr>pending := 3\<rparr>) Tick)) = 0"
    using o3 by (auto simp: worker_batched_def new_conn_def ok_env_def)
  show "pending (projr (SendMessages_step ((worker_batched ok_env)\<lparr>pending := 9223372036854775807\<rparr>) (Msg msg1))) =
     - 9223372036854775808"
    using mx by (auto simp: worker_batched_def out_configured_mode wrap64_def)
  show "SendMessages_step worker_nil (Msg msg1) = Inl (Panic ''nil pointer dereference'')"
    using nl by (simp add: worker_nil_def out_configured_mode out_configured_def Init_config_def
        config_localhost_def out_zero_def Let_def)
  show "SendMessages_step worker_nil Tick = Inl (Panic ''nil pointer dereference'')"
    using nl by (simp add: worker_nil_def out_configured_mode out_configured_def Init_config_def
        config_localhost_def out_zero_def Let_def)
qed

text \<open>
  C2 as stated fails: one message is sent (the counter is 1), then the flush of the
  next tick fails (the output becomes unhealthy and a reconnect is started), and the
  counter is zero all the same.
\<close>

theorem failed_flush_resets_pending:
  "pending (projr (SendMessages_run (worker_batched receive_fails_env) [Msg msg1])) = 1 \<and>
   connected (wout (projr (SendMessages_run (worker_batched receive_fails_env) [Msg msg1]))) \<and>
   \<not> isl (SendMessages_run (worker_batched receive_fails_env) [Msg msg1, Tick]) \<and>
   \<not> connected (wout (projr (SendMessages_run (worker_batched receive_fails_env) [Msg msg1, Tick]))) \<and>
   reconnects (projr (SendMessages_run (worker_batched receive_fails_env) [Msg msg1, Tick])) = 1 \<and>
   pending (projr (SendMessages_run (worker_batched receive_fails_env) [Msg msg1, Tick])) = 0"
  by (simp add: worker_batched_def SendMessages_step_def on_queueMsg_def on_flush_def on_err_def Let_def
      conn_Send_eq conn_Receive_Flush_eq out_configured_mode new_conn_def receive_fails_env_def
      redis_command_def msg1_def wrap64_def)

subsection \<open>The two modes\<close>

text \<open>
  The mode that \<open>Init\<close> selects from the configured flush interval, and the start of the
  worker in each mode.
\<close>

lemma flush_mode_negative:
  "Config.FlushInterval config = Some n \<Longrightarrow> n < 0 \<Longrightarrow>
   flush_immediatelly (snd (Init_config out0 config te)) \<and>
   SendMessagesGoroutine_start (snd (Init_config out0 config te)) =
     Inr \<lparr>wout = snd (Init_config out0 config te), pending = 0, flushTicker = None, reconnects = 0\<rparr>"
  by (simp add: ic_flush_immediatelly SendMessagesGoroutine_start_def)

lemma flush_mode_default:
  "Config.FlushInterval config = None \<Longrightarrow> \<not> flush_immediatelly out0 \<Longrightarrow>
   \<not> flush_immediatelly (snd (Init_config out0 config te)) \<and>
   FlushInterval (snd (Init_config out0 config te)) = 1000 * Millisecond \<and>
   SendMessagesGoroutine_start (snd (Init_config out0 config te)) =
     Inr \<lparr>wout = snd (Init_config out0 config te), pending = 0,
          flushTicker = Some (1000 * Millisecond), reconnects = 0\<rparr>"
  by (simp add: ic_flush_immediatelly ic_FlushInterval SendMessagesGoroutine_start_def Millisecond_def)

lemma flush_mode_positive:
  "Config.FlushInterval config = Some n \<Longrightarrow> 0 < n \<Longrightarrow> n \<le> 9223372036854 \<Longrightarrow> \<not> flush_immediatelly out0 \<Longrightarrow>
   \<not> flush_immediatelly (snd (Init_config out0 config te)) \<and>
   FlushInterval (snd (Init_config out0 config te)) = n * Millisecond \<and>
   SendMessagesGoroutine_start (snd (Init_config out0 config te)) =
     Inr \<lparr>wout = snd (Init_config out0 config te), pending = 0,
          flushTicker = Some (n * Millisecond), reconnects = 0\<rparr>"
proof -
  assume a: "Config.FlushInterval config = Some n" "0 < n" "n \<le> 9223372036854" "\<not> flush_immediatelly out0"
  have "- (2 ^ 63) \<le> n * 1000000" "n * 1000000 < 2 ^ 63"
    using a(2,3) by simp_all
  then have d: "duration_mul n Millisecond = n * 1000000"
    by (simp add: duration_mul_def Millisecond_def wrap64_id)
  have f: "FlushInterval (snd (Init_config out0 config te)) = n * 1000000"
    using a(1,2) by (simp add: ic_FlushInterval d)
  have i: "\<not> flush_immediatelly (snd (Init_config out0 config te))"
    using a(1,2,4) by (simp add: ic_flush_immediatelly)
  show ?thesis
    using a(2) by (simp add: SendMessagesGoroutine_start_def f i Millisecond_def)
qed

text \<open>
  A positive interval above 9223372036854 ms wraps around in
  \<^verbatim>\<open>time.Duration(*config.FlushInterval) * time.Millisecond\<close>; the first such value gives a
  negative duration, and the worker panics at its ticker.
\<close>

lemma flush_interval_wraps:
  "\<not> flush_immediatelly (snd (Init_config out_zero config_flush_wrap 0)) \<and>
   FlushInterval (snd (Init_config out_zero config_flush_wrap 0)) = - 9223372036854551616 \<and>
   SendMessagesGoroutine_start (snd (Init_config out_zero config_flush_wrap 0)) =
     Inl (Panic ''non-positive interval for NewTicker'')"
  by (simp add: config_flush_wrap_def Init_config_def Let_def out_zero_def SendMessagesGoroutine_start_def
      duration_mul_def wrap64_def Millisecond_def)

text \<open>
  Immediate mode on a healthy connection: each message is one \<^verbatim>\<open>Do\<close>, a command whose
  reply is awaited. Batched mode on a healthy connection: each message is one \<^verbatim>\<open>Send\<close>,
  and the tick after them flushes once and reads one reply.
\<close>

lemma run_immediate:
  assumes "flush_immediatelly (wout w)" "connected (wout w)" "Conn (wout w) = Some c"
    and "\<forall>h. \<not> isl (env c h)"
  shows "SendMessages_run w (map Msg ms) =
     Inr (w\<lparr>wout := (wout w)\<lparr>Conn := Some (c\<lparr>hist := hist c @ map (do_action (wout w)) ms\<rparr>)\<rparr>\<rparr>)"
  using assms
proof (induction ms arbitrary: w c)
  case Nil
  have "(wout w)\<lparr>Conn := Some c\<rparr> = wout w"
    using Nil.prems(3) by (cases "wout w") simp
  then show ?case by simp
next
  case (Cons m ms)
  let ?c = "c\<lparr>hist := hist c @ [do_action (wout w) m]\<rparr>"
  let ?w = "w\<lparr>wout := (wout w)\<lparr>Conn := Some ?c\<rparr>\<rparr>"
  have ok: "env c (hist c @ [do_action (wout w) m]) = Inr (projr (env c (hist c @ [do_action (wout w) m])))"
    using Cons.prems(4) by (metis sum.collapse(2))
  have s: "SendMessages_step w (Msg m) = Inr ?w"
    using step_Msg_immediate[OF Cons.prems(2) Cons.prems(1) Cons.prems(3), of m] ok
    by (metis (no_types, lifting) on_err_def option.simps(4) sum.simps(6))
  have a: "flush_immediatelly (wout ?w)" "connected (wout ?w)" "Conn (wout ?w) = Some ?c" "\<forall>h. \<not> isl (env ?c h)"
    using Cons.prems by simp_all
  show ?case
    using Cons.IH[OF a] by (simp add: s)
qed

lemma run_batched:
  assumes "\<not> flush_immediatelly (wout w)" "connected (wout w)" "Conn (wout w) = Some c"
    and "\<forall>h. \<not> isl (env c h)" and "- (2 ^ 63) \<le> pending w" and "pending w + int (length ms) < 2 ^ 63"
  shows "SendMessages_run w (map Msg ms) =
     Inr (w\<lparr>wout := (wout w)\<lparr>Conn := Some (c\<lparr>hist := hist c @ map (send_action (wout w)) ms\<rparr>)\<rparr>,
            pending := pending w + int (length ms)\<rparr>)"
  using assms
proof (induction ms arbitrary: w c)
  case Nil
  have "(wout w)\<lparr>Conn := Some c\<rparr> = wout w"
    using Nil.prems(3) by (cases "wout w") simp
  then show ?case by simp
next
  case (Cons m ms)
  let ?c = "c\<lparr>hist := hist c @ [send_action (wout w) m]\<rparr>"
  let ?w = "w\<lparr>wout := (wout w)\<lparr>Conn := Some ?c\<rparr>, pending := pending w + 1\<rparr>"
  obtain r where ok: "env c (hist c @ [send_action (wout w) m]) = Inr r"
    using Cons.prems(4) by (metis sum.collapse(2))
  have wr: "wrap64 (pending w + 1) = pending w + 1"
    using Cons.prems(5,6) by (intro wrap64_id) simp_all
  have s: "SendMessages_step w (Msg m) = Inr ?w"
    using step_Msg_batched[OF Cons.prems(2) Cons.prems(1) Cons.prems(3), of m]
    by (simp add: ok wr on_err_def)
  have a: "\<not> flush_immediatelly (wout ?w)" "connected (wout ?w)" "Conn (wout ?w) = Some ?c" "\<forall>h. \<not> isl (env ?c h)"
    "- (2 ^ 63) \<le> pending ?w" "pending ?w + int (length ms) < 2 ^ 63"
    using Cons.prems by simp_all
  show ?case
    using Cons.IH[OF a] by (simp add: s add.assoc)
qed

lemma run_batched_tick:
  assumes "\<not> flush_immediatelly (wout w)" "connected (wout w)" "Conn (wout w) = Some c"
    and "\<forall>h. \<not> isl (env c h)" and "flushTicker w \<noteq> None" and "pending w = 0" and "ms \<noteq> []"
    and "int (length ms) < 2 ^ 63"
  shows "SendMessages_run w (map Msg ms @ [Tick]) =
     Inr (w\<lparr>wout := (wout w)\<lparr>Conn := Some (c\<lparr>hist := hist c @ map (send_action (wout w)) ms @ [AFlush, AReceive]\<rparr>)\<rparr>,
            pending := 0\<rparr>)"
proof -
  let ?c = "c\<lparr>hist := hist c @ map (send_action (wout w)) ms\<rparr>"
  let ?w = "w\<lparr>wout := (wout w)\<lparr>Conn := Some ?c\<rparr>, pending := pending w + int (length ms)\<rparr>"
  have p: "0 < pending ?w" using assms(6,7) by simp
  have t: "flushTicker ?w \<noteq> None" using assms(5) by simp
  have c: "Conn (wout ?w) = Some ?c" by simp
  have b: "- (2 ^ 63) \<le> pending w" "pending w + int (length ms) < 2 ^ 63"
    using assms(6,8) by simp_all
  obtain r where ok: "env c (hist c @ map (send_action (wout w)) ms @ [AFlush, AReceive]) = Inr r"
    using assms(4) by (metis sum.collapse(2))
  have "SendMessages_step ?w Tick =
          Inr (w\<lparr>wout := (wout w)\<lparr>Conn := Some (c\<lparr>hist := hist c @ map (send_action (wout w)) ms @ [AFlush, AReceive]\<rparr>)\<rparr>,
                 pending := 0\<rparr>)"
    using step_Tick_flush[OF p t c] by (simp add: ok on_err_def)
  then show ?thesis
    by (simp add: run_append run_batched[OF assms(1-4) b])
qed

text \<open>
  C3 at the flush interval 0. The interval is not negative, so \<open>Init\<close> keeps the batched
  mode and stores the interval 0; the worker then asks for a ticker of interval 0 and
  panics (\<^verbatim>\<open>time.NewTicker\<close> requires a positive interval). No message is sent,
  pipelined or otherwise.
\<close>

theorem zero_flush_interval_panics:
  "Config.FlushInterval config_flush0 = Some 0 \<and>
   fst (Init_config out_zero config_flush0 0) = None \<and>
   \<not> flush_immediatelly (snd (Init_config out_zero config_flush0 0)) \<and>
   FlushInterval (snd (Init_config out_zero config_flush0 0)) = 0 \<and>
   SendMessagesGoroutine_start (snd (Init_config out_zero config_flush0 0)) =
     Inl (Panic ''non-positive interval for NewTicker'')"
  by (simp add: config_flush0_def Init_config_def Let_def out_zero_def SendMessagesGoroutine_start_def
      duration_mul_def wrap64_def)

end
